theory Spec2Isabelle
  imports Main "HOL-Library.Multiset"
begin

text \<open>
  A shallow embedding of the chat server: the dual-backend \<^verbatim>\<open>server.js\<close> (its data access
  layer \<^verbatim>\<open>runQuery\<close>/\<^verbatim>\<open>runExecute\<close>, the four request handlers and the socket handlers around
  \<^verbatim>\<open>onlineUsers\<close>), and the register and fetch-history handlers of the PostgreSQL-only
  variant. The database engines, the HTTP framework and the socket transport are outside
  the repository: a handler takes the engine as a parameter and returns its reply, the
  events it emits and the store after the call. The SQLite-only draft that follows the
  dual-backend program in the same source file is not modelled.
\<close>

section \<open>JavaScript values\<close>

text \<open>
  The values that travel through \<^verbatim>\<open>server.js\<close>: request bodies parsed by body-parser,
  SQL parameters, rows returned by the store clients, JSON replies and socket payloads.
  Numbers are restricted to integers; an object is the list of its own enumerable
  properties in enumeration order.
\<close>

datatype jsval =
    JUndefined
  | JNull
  | JBool bool
  | JNum int
  | JStr string
  | JObj "(string \<times> jsval) list"
  | JArr "jsval list"

text \<open>ToBoolean, as used by \<^verbatim>\<open>!x\<close>, \<^verbatim>\<open>x && y\<close>, \<^verbatim>\<open>x || y\<close> and \<^verbatim>\<open>x ? a : b\<close>.\<close>

fun truthy :: "jsval \<Rightarrow> bool" where
  "truthy JUndefined = False"
| "truthy JNull = False"
| "truthy (JBool b) = b"
| "truthy (JNum n) = (n \<noteq> 0)"
| "truthy (JStr s) = (s \<noteq> [])"
| "truthy (JObj kvs) = True"
| "truthy (JArr vs) = True"

text \<open>\<^verbatim>\<open>a || b\<close>\<close>

definition js_or :: "jsval \<Rightarrow> jsval \<Rightarrow> jsval" where
  "js_or a b = (if truthy a then a else b)"

text \<open>
  Property read \<^verbatim>\<open>v.k\<close> on a value that is neither \<^verbatim>\<open>undefined\<close> nor \<^verbatim>\<open>null\<close>: the own
  property when there is one, \<^verbatim>\<open>undefined\<close> otherwise.
\<close>

fun js_get :: "jsval \<Rightarrow> string \<Rightarrow> jsval" where
  "js_get (JObj kvs) k = (case map_of kvs k of Some v \<Rightarrow> v | None \<Rightarrow> JUndefined)"
| "js_get v k = JUndefined"

text \<open>Destructuring \<^verbatim>\<open>const { a, b } = v\<close> throws a TypeError exactly on these two values.\<close>

definition nullish :: "jsval \<Rightarrow> bool" where
  "nullish v = (v = JUndefined \<or> v = JNull)"

section \<open>The store clients and the universal query functions\<close>

text \<open>
  \<^verbatim>\<open>dbType\<close> is set once at startup: \<^verbatim>\<open>"postgres"\<close> when \<^verbatim>\<open>DATABASE_URL\<close> is set,
  \<^verbatim>\<open>"sqlite"\<close> otherwise.
\<close>

datatype dbType = postgres | sqlite

definition select_dbType :: "string option \<Rightarrow> dbType" where
  "select_dbType DATABASE_URL =
     (case DATABASE_URL of
        None \<Rightarrow> sqlite
      | Some url \<Rightarrow> if url \<noteq> [] then postgres else sqlite)"

text \<open>
  What \<^verbatim>\<open>runQuery\<close> and \<^verbatim>\<open>runExecute\<close> hand to a client library: the method called, the
  SQL text and the parameter array.
\<close>

datatype client_call =
    pool_query string "jsval list"
  | sqliteDB_all string "jsval list"
  | sqliteDB_run string "jsval list"

fun call_sql :: "client_call \<Rightarrow> string" where
  "call_sql (pool_query sql params) = sql"
| "call_sql (sqliteDB_all sql params) = sql"
| "call_sql (sqliteDB_run sql params) = sql"

fun call_params :: "client_call \<Rightarrow> jsval list" where
  "call_params (pool_query sql params) = params"
| "call_params (sqliteDB_all sql params) = params"
| "call_params (sqliteDB_run sql params) = params"

text \<open>
  The \<^verbatim>\<open>err\<close> a client call rejects with. The handlers never look inside it; the three
  causes are the ones the layer is said to propagate.
\<close>

datatype dberr = ConstraintViolation | MalformedStatement | ConnectivityLoss

text \<open>
  A store engine answers a client call on a store state \<open>'db\<close>: it rejects with an error
  or resolves with rows (\<^verbatim>\<open>result.rows\<close> of \<^verbatim>\<open>pool.query\<close>, the \<^verbatim>\<open>rows\<close> of \<^verbatim>\<open>sqliteDB.all\<close>;
  for \<^verbatim>\<open>sqliteDB.run\<close> the statement object, whose content no caller reads, is the empty
  row list), and returns the store state after the call. The engines are not part of the
  repository; the handlers below are parametrised by the engine. Every engine answers:
  a store call that hangs is not modelled.
\<close>

type_synonym 'db engine = "client_call \<Rightarrow> 'db \<Rightarrow> (dberr + jsval list) \<times> 'db"

definition runQuery ::
  "'db engine \<Rightarrow> dbType \<Rightarrow> string \<Rightarrow> jsval list \<Rightarrow> 'db \<Rightarrow> (dberr + jsval list) \<times> 'db" where
  "runQuery eng t sql params db =
     (if t = postgres then eng (pool_query sql params) db
      else eng (sqliteDB_all sql params) db)"

definition runExecute ::
  "'db engine \<Rightarrow> dbType \<Rightarrow> string \<Rightarrow> jsval list \<Rightarrow> 'db \<Rightarrow> (dberr + jsval list) \<times> 'db" where
  "runExecute eng t sql params db =
     (if t = postgres then eng (pool_query sql params) db
      else eng (sqliteDB_run sql params) db)"

text \<open>
  An engine that only records the call it was given: the answer carries the SQL text and
  the parameters that reached the client library.
\<close>

definition recording_engine :: "client_call option engine" where
  "recording_engine c db = (Inr [], Some c)"

section \<open>Request handlers of \<^verbatim>\<open>server.js\<close>\<close>

record request =
  req_body :: jsval
  req_file :: "string option"

record response =
  status :: nat
  json :: jsval

text \<open>\<^verbatim>\<open>res.json(v)\<close> and \<^verbatim>\<open>res.status(n).json(v)\<close>\<close>

definition res_json :: "jsval \<Rightarrow> response" where
  "res_json v = \<lparr>status = 200, json = v\<rparr>"

definition res_status_json :: "nat \<Rightarrow> jsval \<Rightarrow> response" where
  "res_status_json n v = \<lparr>status = n, json = v\<rparr>"

definition register_sql :: string where
  "register_sql = ''INSERT INTO users(username,password,profile_pic,usb_key) VALUES(?,?,?,?)''"

definition login_sql :: string where
  "login_sql = ''SELECT * FROM users WHERE username=? AND password=?''"

definition messages_sql :: string where
  "messages_sql = ''SELECT * FROM messages ORDER BY timestamp ASC''"

definition message_sql :: string where
  "message_sql = ''INSERT INTO messages(sender,message) VALUES(?,?)''"

definition register_params :: "request \<Rightarrow> jsval list" where
  "register_params req =
     (let username = js_get (req_body req) ''username'';
          password = js_get (req_body req) ''password'';
          usb_key = js_get (req_body req) ''usb_key'';
          profile_pic = (case req_file req of
                           Some filename \<Rightarrow> JStr (''/uploads/'' @ filename)
                         | None \<Rightarrow> JStr '''')
      in [username, password, profile_pic, js_or usb_key JNull])"

definition register :: "'db engine \<Rightarrow> dbType \<Rightarrow> request \<Rightarrow> 'db \<Rightarrow> response \<times> 'db" where
  "register eng t req db =
     (if nullish (req_body req)
      then (res_json (JObj [(''success'', JBool False), (''message'', JStr ''Username exists'')]), db)
      else
        (case runExecute eng t register_sql (register_params req) db of
           (Inr r, db') \<Rightarrow> (res_json (JObj [(''success'', JBool True)]), db')
         | (Inl err, db') \<Rightarrow>
             (res_json (JObj [(''success'', JBool False), (''message'', JStr ''Username exists'')]), db')))"

definition login :: "'db engine \<Rightarrow> dbType \<Rightarrow> request \<Rightarrow> 'db \<Rightarrow> response \<times> 'db" where
  "login eng t req db =
     (if nullish (req_body req) then (res_json (JObj [(''success'', JBool False)]), db)
      else
        (let username = js_get (req_body req) ''username'';
             password = js_get (req_body req) ''password'';
             usb_present = js_get (req_body req) ''usb_present''
         in case runQuery eng t login_sql [username, password] db of
              (Inl err, db') \<Rightarrow> (res_json (JObj [(''success'', JBool False)]), db')
            | (Inr rows, db') \<Rightarrow>
                (let user = (case rows of [] \<Rightarrow> JUndefined | r # rs \<Rightarrow> r) in
                 if \<not> truthy user
                 then (res_json (JObj [(''success'', JBool False), (''message'', JStr ''Invalid login'')]), db')
                 else if truthy (js_get user ''usb_key'') \<and> \<not> truthy usb_present
                 then (res_json (JObj [(''success'', JBool False), (''message'', JStr ''USB required'')]), db')
                 else (res_json (JObj [(''success'', JBool True), (''user'', user)]), db'))))"

definition get_messages :: "'db engine \<Rightarrow> dbType \<Rightarrow> 'db \<Rightarrow> response \<times> 'db" where
  "get_messages eng t db =
     (case runQuery eng t messages_sql [] db of
        (Inr rows, db') \<Rightarrow> (res_json (JArr rows), db')
      | (Inl err, db') \<Rightarrow> (res_json (JArr []), db'))"

text \<open>
  What the server pushes over the real-time channel: \<^verbatim>\<open>io.emit(event, payload)\<close> reaches
  every connected client, \<^verbatim>\<open>socket.broadcast.emit(event, payload)\<close> every client but the
  socket with the given id.
\<close>

datatype emitted =
    io_emit string jsval
  | socket_broadcast_emit string string jsval

text \<open>
  \<^verbatim>\<open>POST /message\<close>; \<open>now\<close> is the value of \<^verbatim>\<open>new Date()\<close> in the handler, as a number of
  clock ticks.
\<close>

definition post_message ::
  "'db engine \<Rightarrow> dbType \<Rightarrow> int \<Rightarrow> request \<Rightarrow> 'db \<Rightarrow> response \<times> emitted list \<times> 'db" where
  "post_message eng t now req db =
     (if nullish (req_body req) then (res_json (JObj [(''success'', JBool False)]), [], db)
      else
        (let sender = js_get (req_body req) ''sender'';
             message = js_get (req_body req) ''message''
         in case runExecute eng t message_sql [sender, message] db of
              (Inr r, db') \<Rightarrow>
                (res_json (JObj [(''success'', JBool True)]),
                 [io_emit ''newMessage''
                    (JObj [(''sender'', sender), (''message'', message), (''timestamp'', JNum now)])],
                 db')
            | (Inl err, db') \<Rightarrow> (res_json (JObj [(''success'', JBool False)]), [], db')))"

section \<open>The handlers of the PostgreSQL-only variant\<close>

text \<open>
  The second source file of the repository talks to \<^verbatim>\<open>pool.query\<close> only, and its callers
  write numbered placeholders themselves. Its register and fetch-history handlers differ
  from the ones above in the SQL text, the HTTP status and the message.
\<close>

definition runQuery_pg :: "'db engine \<Rightarrow> string \<Rightarrow> jsval list \<Rightarrow> 'db \<Rightarrow> (dberr + jsval list) \<times> 'db" where
  "runQuery_pg eng sql params db = eng (pool_query sql params) db"

definition runExecute_pg :: "'db engine \<Rightarrow> string \<Rightarrow> jsval list \<Rightarrow> 'db \<Rightarrow> (dberr + jsval list) \<times> 'db" where
  "runExecute_pg eng sql params db = eng (pool_query sql params) db"

definition register_sql_pg :: string where
  "register_sql_pg = ''INSERT INTO users(username,password,profile_pic,usb_key) VALUES($1,$2,$3,$4)''"

definition register_pg :: "'db engine \<Rightarrow> request \<Rightarrow> 'db \<Rightarrow> response \<times> 'db" where
  "register_pg eng req db =
     (if nullish (req_body req)
      then (res_status_json 400
              (JObj [(''success'', JBool False), (''message'', JStr ''Username exists or invalid data'')]), db)
      else
        (case runExecute_pg eng register_sql_pg (register_params req) db of
           (Inr r, db') \<Rightarrow> (res_json (JObj [(''success'', JBool True)]), db')
         | (Inl err, db') \<Rightarrow>
             (res_status_json 400
                (JObj [(''success'', JBool False), (''message'', JStr ''Username exists or invalid data'')]),
              db')))"

definition get_messages_pg :: "'db engine \<Rightarrow> 'db \<Rightarrow> response \<times> 'db" where
  "get_messages_pg eng db =
     (case runQuery_pg eng messages_sql [] db of
        (Inr rows, db') \<Rightarrow> (res_json (JArr rows), db')
      | (Inl err, db') \<Rightarrow> (res_status_json 500 (JArr []), db'))"

section \<open>Placeholder translation, as the specification words it\<close>

text \<open>
  The specification asks the data access layer to hand the networked backend numbered
  placeholders \<^verbatim>\<open>$1,$2,...\<close> where the caller wrote sequential \<^verbatim>\<open>?\<close>, and to leave the
  text alone for the embedded backend. These definitions follow the specification, not
  the code: \<^verbatim>\<open>runQuery\<close> and \<^verbatim>\<open>runExecute\<close> contain no translation.
\<close>

definition digit_char :: "nat \<Rightarrow> char" where
  "digit_char d = char_of (48 + d)"

fun digits_of_nat :: "nat \<Rightarrow> string" where
  "digits_of_nat n =
     (if n < 10 then [digit_char n] else digits_of_nat (n div 10) @ [digit_char (n mod 10)])"

fun spec_number_from :: "nat \<Rightarrow> string \<Rightarrow> string" where
  "spec_number_from i [] = []"
| "spec_number_from i (c # cs) =
     (if c = CHR ''?'' then CHR ''$'' # digits_of_nat i @ spec_number_from (Suc i) cs
      else c # spec_number_from i cs)"

definition spec_required_sql :: "dbType \<Rightarrow> string \<Rightarrow> string" where
  "spec_required_sql t sql = (if t = postgres then spec_number_from 1 sql else sql)"

section \<open>A model of the embedded store\<close>

text \<open>
  The embedded engine, for the four statements the handlers issue, read off the schema of
  \<^verbatim>\<open>createTables\<close>: \<^verbatim>\<open>users(id AUTOINCREMENT, username TEXT UNIQUE, password TEXT, profile_pic TEXT, usb_key TEXT)\<close>
  and \<^verbatim>\<open>messages(id AUTOINCREMENT, sender TEXT, message TEXT, timestamp DEFAULT CURRENT_TIMESTAMP)\<close>.
  Tables are row lists in insertion order. Any other statement is rejected.

  Every parameter of the four statements meets a TEXT column. The client binds a string as
  text, a number that is a 32-bit integer as an integer, a boolean as the integer 1 or 0,
  \<^verbatim>\<open>null\<close> as NULL, and leaves \<^verbatim>\<open>undefined\<close> unbound, which the engine reads as NULL. A TEXT
  column converts what it is given to text, when a value is stored and when a value is
  compared with the column: the number 123 is stored as the text \<^verbatim>\<open>'123'\<close>, and equals a
  stored \<^verbatim>\<open>'123'\<close>. The text of the remaining values (a number outside the 32-bit range,
  bound as a floating-point value; an object or an array, bound through \<^verbatim>\<open>toString\<close>) is the
  engine's own: the model takes it as the parameter \<open>render\<close>.

  SQL equality never holds for NULL, so the UNIQUE constraint admits several NULL usernames.
  The clock reading \<open>CURRENT_TIMESTAMP\<close> of the store at the time of the call, in whole
  seconds, is an input. ORDER BY is a stable sort: rows with equal timestamps come out in
  insertion order.
\<close>

record sqlite_store =
  users :: "jsval list"
  messages :: "jsval list"

definition int32 :: "int \<Rightarrow> bool" where
  "int32 n = (- 2147483648 \<le> n \<and> n \<le> 2147483647)"

definition decimal :: "int \<Rightarrow> string" where
  "decimal n = (if n < 0 then CHR ''-'' # digits_of_nat (nat (- n)) else digits_of_nat (nat n))"

text \<open>What a TEXT column makes of a bound parameter.\<close>

fun to_text :: "(jsval \<Rightarrow> string) \<Rightarrow> jsval \<Rightarrow> jsval" where
  "to_text render JUndefined = JNull"
| "to_text render JNull = JNull"
| "to_text render (JStr s) = JStr s"
| "to_text render (JNum n) = (if int32 n then JStr (decimal n) else JStr (render (JNum n)))"
| "to_text render (JBool b) = JStr (if b then ''1'' else ''0'')"
| "to_text render (JObj kvs) = JStr (render (JObj kvs))"
| "to_text render (JArr vs) = JStr (render (JArr vs))"

text \<open>\<^verbatim>\<open>column = ?\<close> on a TEXT column: both sides as text, and NULL equal to nothing.\<close>

definition sql_eq :: "(jsval \<Rightarrow> string) \<Rightarrow> jsval \<Rightarrow> jsval \<Rightarrow> bool" where
  "sql_eq render column_value param =
     (to_text render column_value \<noteq> JNull \<and> to_text render column_value = to_text render param)"

text \<open>The values a TEXT column holds as they are bound: strings and \<^verbatim>\<open>null\<close>.\<close>

fun text_or_null :: "jsval \<Rightarrow> bool" where
  "text_or_null JNull = True"
| "text_or_null (JStr s) = True"
| "text_or_null v = False"

definition timestamp_of :: "jsval \<Rightarrow> int" where
  "timestamp_of row = (case js_get row ''timestamp'' of JNum n \<Rightarrow> n | _ \<Rightarrow> 0)"

text \<open>Rows as \<^verbatim>\<open>SELECT *\<close> returns them, from the values the columns hold.\<close>

definition user_row :: "nat \<Rightarrow> jsval \<Rightarrow> jsval \<Rightarrow> jsval \<Rightarrow> jsval \<Rightarrow> jsval" where
  "user_row n username password profile_pic usb_key =
     JObj [(''id'', JNum (int n)), (''username'', username), (''password'', password),
           (''profile_pic'', profile_pic), (''usb_key'', usb_key)]"

definition message_row :: "nat \<Rightarrow> jsval \<Rightarrow> jsval \<Rightarrow> int \<Rightarrow> jsval" where
  "message_row n sender message ts =
     JObj [(''id'', JNum (int n)), (''sender'', sender), (''message'', message),
           (''timestamp'', JNum ts)]"

definition sqlite_run ::
  "(jsval \<Rightarrow> string) \<Rightarrow> int \<Rightarrow> string \<Rightarrow> jsval list \<Rightarrow> sqlite_store \<Rightarrow>
   (dberr + jsval list) \<times> sqlite_store" where
  "sqlite_run render CURRENT_TIMESTAMP sql params db =
     (if sql = register_sql then
        (case params of
           [username, password, profile_pic, usb_key] \<Rightarrow>
             if list_ex (\<lambda>row. sql_eq render (js_get row ''username'') username) (users db)
             then (Inl ConstraintViolation, db)
             else (Inr [],
                   db\<lparr>users := users db @
                        [user_row (Suc (length (users db)))
                           (to_text render username) (to_text render password)
                           (to_text render profile_pic) (to_text render usb_key)]\<rparr>)
         | _ \<Rightarrow> (Inl MalformedStatement, db))
      else if sql = message_sql then
        (case params of
           [sender, message] \<Rightarrow>
             (Inr [],
              db\<lparr>messages := messages db @
                   [message_row (Suc (length (messages db)))
                      (to_text render sender) (to_text render message) CURRENT_TIMESTAMP]\<rparr>)
         | _ \<Rightarrow> (Inl MalformedStatement, db))
      else (Inl MalformedStatement, db))"

definition sqlite_all ::
  "(jsval \<Rightarrow> string) \<Rightarrow> string \<Rightarrow> jsval list \<Rightarrow> sqlite_store \<Rightarrow>
   (dberr + jsval list) \<times> sqlite_store" where
  "sqlite_all render sql params db =
     (if sql = login_sql then
        (case params of
           [username, password] \<Rightarrow>
             (Inr (filter (\<lambda>row. sql_eq render (js_get row ''username'') username \<and>
                                 sql_eq render (js_get row ''password'') password) (users db)), db)
         | _ \<Rightarrow> (Inl MalformedStatement, db))
      else if sql = messages_sql then
        (case params of
           [] \<Rightarrow> (Inr (sort_key timestamp_of (messages db)), db)
         | _ \<Rightarrow> (Inl MalformedStatement, db))
      else (Inl MalformedStatement, db))"

fun sqlite_engine :: "(jsval \<Rightarrow> string) \<Rightarrow> int \<Rightarrow> sqlite_store engine" where
  "sqlite_engine render CURRENT_TIMESTAMP (sqliteDB_run sql params) db =
     sqlite_run render CURRENT_TIMESTAMP sql params db"
| "sqlite_engine render CURRENT_TIMESTAMP (sqliteDB_all sql params) db = sqlite_all render sql params db"
| "sqlite_engine render CURRENT_TIMESTAMP (pool_query sql params) db = (Inl ConnectivityLoss, db)"

text \<open>An engine whose every call is rejected with the given error.\<close>

definition failing_engine :: "dberr \<Rightarrow> 'db engine" where
  "failing_engine err c db = (Inl err, db)"

text \<open>
  What the ORDER BY clause of \<^verbatim>\<open>GET /messages\<close> asks of an answer on a table: a
  rearrangement of the table's rows with ascending timestamps.
\<close>

definition ordered_by_timestamp :: "jsval list \<Rightarrow> jsval list \<Rightarrow> bool" where
  "ordered_by_timestamp answer table =
     (mset answer = mset table \<and> sorted (map timestamp_of answer))"

text \<open>
  A run of \<^verbatim>\<open>POST /message\<close> requests on the embedded backend, each with the store's clock
  reading and the handler's \<^verbatim>\<open>new Date()\<close>; the replies are collected in order.
\<close>

fun post_messages ::
  "(jsval \<Rightarrow> string) \<Rightarrow> (request \<times> int \<times> int) list \<Rightarrow> sqlite_store \<Rightarrow>
   response list \<times> sqlite_store" where
  "post_messages render [] db = ([], db)"
| "post_messages render ((req, ts, now) # rest) db =
     (case post_message (sqlite_engine render ts) sqlite now req db of
        (res, es, db') \<Rightarrow>
          (case post_messages render rest db' of (ress, db'') \<Rightarrow> (res # ress, db'')))"

section \<open>Presence registry\<close>

text \<open>
  \<^verbatim>\<open>onlineUsers\<close> is a plain object from username to socket id: the list of its own
  properties in the order \<^verbatim>\<open>Object.keys\<close> and \<^verbatim>\<open>for ... in\<close> enumerate them, array-index
  names first in ascending numeric order, the other names in insertion order. A username
  is the property name the announced value denotes.
\<close>

type_synonym registry = "(string \<times> string) list"

definition Object_keys :: "registry \<Rightarrow> string list" where
  "Object_keys obj = map fst obj"

definition is_digit :: "char \<Rightarrow> bool" where
  "is_digit c = (c \<in> set ''0123456789'')"

definition index_value :: "string \<Rightarrow> int" where
  "index_value s = foldl (\<lambda>a c. 10 * a + (of_char c - 48)) 0 s"

definition is_array_index :: "string \<Rightarrow> bool" where
  "is_array_index s =
     (s \<noteq> [] \<and> list_all is_digit s \<and> (s = ''0'' \<or> hd s \<noteq> CHR ''0'') \<and> index_value s < 4294967295)"

fun insert_index :: "string \<Rightarrow> string \<Rightarrow> registry \<Rightarrow> registry" where
  "insert_index k v [] = [(k, v)]"
| "insert_index k v ((k', v') # ps) =
     (if is_array_index k' \<and> index_value k' < index_value k
      then (k', v') # insert_index k v ps
      else (k, v) # (k', v') # ps)"

text \<open>
  \<^verbatim>\<open>obj[k] = v\<close> for a string \<open>v\<close>. The name \<^verbatim>\<open>__proto__\<close> reaches the prototype setter,
  which ignores a string: no own property appears.
\<close>

definition obj_set :: "string \<Rightarrow> string \<Rightarrow> registry \<Rightarrow> registry" where
  "obj_set k v obj =
     (if k = ''__proto__'' then obj
      else if k \<in> set (Object_keys obj) then map (\<lambda>(k', v'). if k' = k then (k', v) else (k', v')) obj
      else if is_array_index k then insert_index k v obj
      else obj @ [(k, v)])"

text \<open>\<^verbatim>\<open>delete obj[k]\<close>\<close>

definition obj_delete :: "string \<Rightarrow> registry \<Rightarrow> registry" where
  "obj_delete k obj = filter (\<lambda>(k', v'). k' \<noteq> k) obj"

definition updateOnline :: "registry \<Rightarrow> emitted" where
  "updateOnline obj = io_emit ''updateOnline'' (JArr (map JStr (Object_keys obj)))"

definition userOnline :: "string \<Rightarrow> string \<Rightarrow> registry \<Rightarrow> registry \<times> emitted list" where
  "userOnline socket_id username onlineUsers =
     (if length (Object_keys onlineUsers) < 4
      then (let onlineUsers' = obj_set username socket_id onlineUsers
            in (onlineUsers', [updateOnline onlineUsers']))
      else (onlineUsers, []))"

definition userTyping :: "string \<Rightarrow> jsval \<Rightarrow> registry \<Rightarrow> registry \<times> emitted list" where
  "userTyping socket_id username onlineUsers =
     (onlineUsers, [socket_broadcast_emit socket_id ''userTyping'' username])"

text \<open>
  The \<^verbatim>\<open>for (let u in onlineUsers)\<close> loop of the disconnect handler: it walks the names
  the object had when the loop began and reads the object as it is now; there is no
  \<^verbatim>\<open>break\<close>.
\<close>

fun disconnect_loop :: "string \<Rightarrow> string list \<Rightarrow> registry \<Rightarrow> registry \<times> emitted list" where
  "disconnect_loop socket_id [] onlineUsers = (onlineUsers, [])"
| "disconnect_loop socket_id (u # us) onlineUsers =
     (if map_of onlineUsers u = Some socket_id
      then (let onlineUsers' = obj_delete u onlineUsers
            in case disconnect_loop socket_id us onlineUsers' of
                 (final, es) \<Rightarrow> (final, updateOnline onlineUsers' # es))
      else disconnect_loop socket_id us onlineUsers)"

definition disconnect :: "string \<Rightarrow> registry \<Rightarrow> registry \<times> emitted list" where
  "disconnect socket_id onlineUsers = disconnect_loop socket_id (Object_keys onlineUsers) onlineUsers"

datatype socket_event =
    On_userOnline string string
  | On_userTyping string jsval
  | On_disconnect string

fun socket_step :: "socket_event \<Rightarrow> registry \<Rightarrow> registry \<times> emitted list" where
  "socket_step (On_userOnline socket_id username) obj = userOnline socket_id username obj"
| "socket_step (On_userTyping socket_id username) obj = userTyping socket_id username obj"
| "socket_step (On_disconnect socket_id) obj = disconnect socket_id obj"

text \<open>The registry and everything emitted after a sequence of socket events, starting from \<^verbatim>\<open>{}\<close>.\<close>

fun run_events :: "socket_event list \<Rightarrow> registry \<Rightarrow> registry \<times> emitted list" where
  "run_events [] obj = (obj, [])"
| "run_events (e # es) obj =
     (case socket_step e obj of
        (obj', out) \<Rightarrow> (case run_events es obj' of (final, out') \<Rightarrow> (final, out @ out')))"

definition registry_after :: "socket_event list \<Rightarrow> registry" where
  "registry_after evs = fst (run_events evs [])"

text \<open>
  One socket announcing several usernames in a row: whether every announcement finds the
  registry below capacity, and the registry after the announcements.
\<close>

fun accepted_announcements :: "string \<Rightarrow> string list \<Rightarrow> registry \<Rightarrow> bool" where
  "accepted_announcements socket_id [] obj = True"
| "accepted_announcements socket_id (u # us) obj =
     (length (Object_keys obj) < 4 \<and> accepted_announcements socket_id us (fst (userOnline socket_id u obj)))"

definition announce_all :: "string \<Rightarrow> string list \<Rightarrow> registry \<Rightarrow> registry" where
  "announce_all socket_id names obj = fst (run_events (map (On_userOnline socket_id) names) obj)"

text \<open>
  The shape every registry the server can reach has: no property name twice, and at most
  four properties.
\<close>

definition registry_ok :: "registry \<Rightarrow> bool" where
  "registry_ok obj = (distinct (map fst obj) \<and> length obj \<le> 4)"

text \<open>The embedded store right after \<^verbatim>\<open>createTables\<close>.\<close>

definition empty_store :: sqlite_store where
  "empty_store = \<lparr>users = [], messages = []\<rparr>"

text \<open>
  The examples below run the embedded engine on strings, 32-bit integers and missing
  fields only, whose text the model fixes; this stands in for \<open>render\<close> there and is never
  consulted.
\<close>

definition unused_render :: "jsval \<Rightarrow> string" where
  "unused_render v = []"

text \<open>
  A store holding one account with a second-factor key and one without, and the requests
  used as examples below.
\<close>

definition keyed_store :: sqlite_store where
  "keyed_store =
     \<lparr>users = [user_row 1 (JStr ''ann'') (JStr ''pw'') (JStr []) (JStr ''key-1''),
                user_row 2 (JStr ''bob'') (JStr ''hunter2'') (JStr ''/uploads/7.png'') JNull],
      messages = []\<rparr>"

definition login_request :: "string \<Rightarrow> string \<Rightarrow> jsval \<Rightarrow> request" where
  "login_request u p usb =
     \<lparr>req_body = JObj [(''username'', JStr u), (''password'', JStr p), (''usb_present'', usb)],
      req_file = None\<rparr>"

definition message_request :: "string \<Rightarrow> string \<Rightarrow> request" where
  "message_request s m =
     \<lparr>req_body = JObj [(''sender'', JStr s), (''message'', JStr m)], req_file = None\<rparr>"

text \<open>A post whose sender is the number 7, as a JSON body can carry it.\<close>

definition numeric_sender_request :: request where
  "numeric_sender_request =
     \<lparr>req_body = JObj [(''sender'', JNum 7), (''message'', JStr ''hi'')], req_file = None\<rparr>"

text \<open>
  The rows a run of successful posts appends to a messages table that holds \<open>n\<close> rows.
\<close>

fun posted_rows :: "(jsval \<Rightarrow> string) \<Rightarrow> nat \<Rightarrow> (request \<times> int \<times> int) list \<Rightarrow> jsval list" where
  "posted_rows render n [] = []"
| "posted_rows render n ((req, ts, now) # rest) =
     message_row (Suc n) (to_text render (js_get (req_body req) ''sender''))
       (to_text render (js_get (req_body req) ''message'')) ts #
     posted_rows render (Suc n) rest"

text \<open>
  A run of posts with the store's clock reading at each insert, where the clock is set back
  between the first and the second insert.
\<close>

definition jittered_posts :: "(request \<times> int \<times> int) list" where
  "jittered_posts =
     [(message_request ''ann'' ''M1'', 20, 20),
      (message_request ''bob'' ''M2'', 10, 10),
      (message_request ''ann'' ''M3'', 30, 30)]"

text \<open>A registration request that carries no username.\<close>

definition nameless_request :: request where
  "nameless_request = \<lparr>req_body = JObj [(''password'', JStr ''pw'')], req_file = None\<rparr>"

text \<open>
  Two registration requests for one username, sent as the number 123 and as the string
  \<^verbatim>\<open>"123"\<close>.
\<close>

definition number_name_request :: request where
  "number_name_request =
     \<lparr>req_body = JObj [(''username'', JNum 123), (''password'', JStr ''pw'')], req_file = None\<rparr>"

definition text_name_request :: request where
  "text_name_request =
     \<lparr>req_body = JObj [(''username'', JStr ''123''), (''password'', JStr ''pw2'')], req_file = None\<rparr>"

text \<open>A registration request without an upload and without a second-factor key.\<close>

definition example_request :: request where
  "example_request =
     \<lparr>req_body = JObj [(''username'', JStr ''ann''), (''password'', JStr ''pw'')], req_file = None\<rparr>"

section \<open>Properties of the presence registry\<close>

subsection \<open>Writing and deleting properties\<close>

lemma length_insert_index: "length (insert_index k v obj) = Suc (length obj)"
  by (induction obj) auto

lemma set_insert_index: "set (insert_index k v obj) = insert (k, v) (set obj)"
  by (induction obj) (auto split: if_splits)

lemma keys_insert_index: "fst ` set (insert_index k v obj) = insert k (fst ` set obj)"
  by (simp add: set_insert_index)

lemma distinct_insert_index:
  "k \<notin> fst ` set obj \<Longrightarrow> distinct (map fst obj) \<Longrightarrow> distinct (map fst (insert_index k v obj))"
  by (induction obj) (auto simp: keys_insert_index)

lemma map_of_insert_index:
  "k \<notin> fst ` set obj \<Longrightarrow> map_of (insert_index k v obj) x = (if x = k then Some v else map_of obj x)"
  by (induction obj) auto

lemma map_of_replace:
  "map_of (map (\<lambda>(k', v'). if k' = k then (k', v) else (k', v')) obj) x =
     (if x = k then map_option (\<lambda>_. v) (map_of obj k) else map_of obj x)"
  by (induction obj) auto

lemma keys_replace:
  "map fst (map (\<lambda>(k', v'). if k' = k then (k', v) else (k', v')) obj) = map fst obj"
  by (induction obj) auto

lemma map_of_snoc:
  "k \<notin> fst ` set obj \<Longrightarrow> map_of (obj @ [(k, v)]) x = (if x = k then Some v else map_of obj x)"
  by (induction obj) auto

lemma length_obj_set: "length (obj_set k v obj) \<le> Suc (length obj)"
  by (simp add: obj_set_def length_insert_index)

lemma distinct_obj_set:
  "distinct (map fst obj) \<Longrightarrow> distinct (map fst (obj_set k v obj))"
  by (simp add: obj_set_def Object_keys_def keys_replace distinct_insert_index del: map_map)

lemma map_of_obj_set:
  assumes "k \<noteq> ''__proto__''"
  shows "map_of (obj_set k v obj) x = (if x = k then Some v else map_of obj x)"
proof (cases "k \<in> fst ` set obj")
  case True
  then obtain w where "map_of obj k = Some w"
    by (metis domD dom_map_of_conv_image_fst)
  with True assms show ?thesis
    by (simp add: obj_set_def Object_keys_def map_of_replace)
next
  case False
  with assms show ?thesis
    by (simp add: obj_set_def Object_keys_def map_of_insert_index map_of_snoc del: map_of_append)
qed

lemma distinct_obj_delete: "distinct (map fst obj) \<Longrightarrow> distinct (map fst (obj_delete k obj))"
  by (simp add: obj_delete_def distinct_map_filter)

lemma length_obj_delete: "length (obj_delete k obj) \<le> length obj"
  by (simp add: obj_delete_def)


lemma same_key_same_value:
  "distinct (map fst obj) \<Longrightarrow> (u, s) \<in> set obj \<Longrightarrow> (u, s') \<in> set obj \<Longrightarrow> s = s'"
  by (metis map_of_is_SomeI option.inject)

lemma length_obj_delete_present:
  "distinct (map fst obj) \<Longrightarrow> (u, s) \<in> set obj \<Longrightarrow> Suc (length (obj_delete u obj)) = length obj"
proof (induction obj)
  case Nil
  then show ?case by simp
next
  case (Cons p ps)
  show ?case
  proof (cases "fst p = u")
    case True
    with Cons.prems have "u \<notin> fst ` set ps" by auto
    then have "filter (\<lambda>(k', v'). k' \<noteq> u) ps = ps"
      by (force simp: filter_id_conv)
    with True show ?thesis by (cases p) (simp add: obj_delete_def)
  next
    case False
    with Cons show ?thesis by (cases p) (auto simp: obj_delete_def)
  qed
qed

lemma disconnect_loop_registry:
  "distinct (map fst obj) \<Longrightarrow>
   fst (disconnect_loop sid us obj) = filter (\<lambda>(u, s). \<not> (u \<in> set us \<and> s = sid)) obj"
proof (induction us arbitrary: obj)
  case Nil
  then show ?case by simp
next
  case (Cons u us)
  show ?case
  proof (cases "map_of obj u = Some sid")
    case True
    then have mem: "(u, sid) \<in> set obj" by (rule map_of_SomeD)
    have d: "distinct (map fst (obj_delete u obj))"
      using Cons.prems by (rule distinct_obj_delete)
    have "fst (disconnect_loop sid (u # us) obj) = fst (disconnect_loop sid us (obj_delete u obj))"
      using True by (simp add: Let_def case_prod_beta)
    also have "\<dots> = filter (\<lambda>(u, s). \<not> (u \<in> set us \<and> s = sid)) (obj_delete u obj)"
      using d by (rule Cons.IH)
    also have "\<dots> = filter (\<lambda>(u', s). \<not> (u' \<in> set (u # us) \<and> s = sid)) obj"
      unfolding obj_delete_def filter_filter
      using same_key_same_value [OF Cons.prems mem]
      by (intro filter_cong) auto
    finally show ?thesis .
  next
    case False
    then have "(u, sid) \<notin> set obj"
      using Cons.prems by (auto dest: map_of_is_SomeI)
    then have "filter (\<lambda>(u', s). \<not> (u' \<in> set us \<and> s = sid)) obj =
               filter (\<lambda>(u', s). \<not> (u' \<in> set (u # us) \<and> s = sid)) obj"
      by (intro filter_cong) auto
    with False Cons show ?thesis by simp
  qed
qed

lemma disconnect_loop_count:
  "distinct (map fst obj) \<Longrightarrow>
   length (snd (disconnect_loop sid us obj)) + length (fst (disconnect_loop sid us obj)) = length obj"
proof (induction us arbitrary: obj)
  case Nil
  then show ?case by simp
next
  case (Cons u us)
  show ?case
  proof (cases "map_of obj u = Some sid")
    case True
    then have mem: "(u, sid) \<in> set obj" by (rule map_of_SomeD)
    have d: "distinct (map fst (obj_delete u obj))"
      using Cons.prems by (rule distinct_obj_delete)
    from Cons.IH [OF d] length_obj_delete_present [OF Cons.prems mem] True
    show ?thesis by (simp add: Let_def case_prod_beta)
  next
    case False
    with Cons show ?thesis by simp
  qed
qed

lemma disconnect_loop_silent:
  "snd (disconnect_loop sid us obj) = [] \<Longrightarrow> fst (disconnect_loop sid us obj) = obj"
  by (induction us arbitrary: obj) (auto simp: Let_def case_prod_beta split: if_splits)

lemma disconnect_loop_last:
  "snd (disconnect_loop sid us obj) \<noteq> [] \<Longrightarrow>
   last (snd (disconnect_loop sid us obj)) = updateOnline (fst (disconnect_loop sid us obj))"
proof (induction us arbitrary: obj)
  case Nil
  then show ?case by simp
next
  case (Cons u us)
  show ?case
  proof (cases "map_of obj u = Some sid")
    case True
    show ?thesis
    proof (cases "snd (disconnect_loop sid us (obj_delete u obj)) = []")
      case True
      with \<open>map_of obj u = Some sid\<close> disconnect_loop_silent [OF True]
      show ?thesis by (simp add: Let_def case_prod_beta)
    next
      case False
      with \<open>map_of obj u = Some sid\<close> Cons.IH [OF False]
      show ?thesis by (simp add: Let_def case_prod_beta)
    qed
  next
    case False
    with Cons show ?thesis by simp
  qed
qed


lemma disconnect_registry:
  "distinct (map fst obj) \<Longrightarrow> fst (disconnect sid obj) = filter (\<lambda>(u, s). s \<noteq> sid) obj"
  unfolding disconnect_def Object_keys_def
  by (simp add: disconnect_loop_registry) (intro filter_cong, force+)

lemma socket_step_ok: "registry_ok obj \<Longrightarrow> registry_ok (fst (socket_step e obj))"
proof (cases e)
  case (On_userOnline sid u)
  assume "registry_ok obj"
  with On_userOnline length_obj_set [of u sid obj] show ?thesis
    by (auto simp: registry_ok_def userOnline_def Object_keys_def Let_def distinct_obj_set)
next
  case (On_userTyping sid u)
  assume "registry_ok obj"
  with On_userTyping show ?thesis by (simp add: userTyping_def)
next
  case (On_disconnect sid)
  assume ok: "registry_ok obj"
  then have "distinct (map fst obj)" by (simp add: registry_ok_def)
  from disconnect_registry [OF this, of sid] ok On_disconnect show ?thesis
    by (auto simp: registry_ok_def distinct_map_filter intro: le_trans [OF length_filter_le])
qed

lemma run_events_ok: "registry_ok obj \<Longrightarrow> registry_ok (fst (run_events evs obj))"
proof (induction evs arbitrary: obj)
  case Nil
  then show ?case by simp
next
  case (Cons e evs)
  from Cons.IH [OF socket_step_ok [OF Cons.prems, of e]]
  show ?case by (simp add: case_prod_beta)
qed

lemma registry_after_ok: "registry_ok (registry_after evs)"
  unfolding registry_after_def by (rule run_events_ok) (simp add: registry_ok_def)

subsection \<open>Capacity\<close>

text \<open>
  C2. After any sequence of socket events the registry holds at most four entries, and a
  \<^verbatim>\<open>userOnline\<close> announcement that finds it holding four leaves the registry as it is and
  emits nothing: neither an \<^verbatim>\<open>updateOnline\<close> broadcast nor any message to the announcing
  socket.
\<close>

theorem presence_registry_capacity:
  "length (Object_keys (registry_after evs)) \<le> 4 \<and>
   (length (Object_keys (registry_after evs)) = 4 \<longrightarrow>
      userOnline socket_id username (registry_after evs) = (registry_after evs, []))"
  using registry_after_ok [of evs]
  by (simp add: registry_ok_def Object_keys_def userOnline_def)

theorem presence_registry_capacity_witness:
  "length (Object_keys (registry_after
     [On_userOnline ''s1'' ''ann'', On_userOnline ''s2'' ''bob'',
      On_userOnline ''s3'' ''cy'', On_userOnline ''s4'' ''dee''])) = 4 \<and>
   userOnline ''s5'' ''eve'' (registry_after
     [On_userOnline ''s1'' ''ann'', On_userOnline ''s2'' ''bob'',
      On_userOnline ''s3'' ''cy'', On_userOnline ''s4'' ''dee'']) =
     (registry_after
       [On_userOnline ''s1'' ''ann'', On_userOnline ''s2'' ''bob'',
        On_userOnline ''s3'' ''cy'', On_userOnline ''s4'' ''dee''], [])"
proof -
  have "length (Object_keys (registry_after
     [On_userOnline ''s1'' ''ann'', On_userOnline ''s2'' ''bob'',
      On_userOnline ''s3'' ''cy'', On_userOnline ''s4'' ''dee''])) = 4"
    by code_simp
  with presence_registry_capacity [of
     "[On_userOnline ''s1'' ''ann'', On_userOnline ''s2'' ''bob'',
       On_userOnline ''s3'' ''cy'', On_userOnline ''s4'' ''dee'']" "''s5''" "''eve''"]
  show ?thesis by simp
qed

subsection \<open>Disconnect\<close>

lemma disconnect_count:
  "distinct (map fst obj) \<Longrightarrow>
   length (snd (disconnect sid obj)) = length (filter (\<lambda>(u, s). s = sid) obj)"
proof -
  assume d: "distinct (map fst obj)"
  have "length (snd (disconnect sid obj)) + length (fst (disconnect sid obj)) = length obj"
    unfolding disconnect_def using d by (rule disconnect_loop_count)
  moreover have "(\<lambda>(u, s). s \<noteq> sid) = (\<lambda>p::string \<times> string. \<not> (case p of (u, s) \<Rightarrow> s = sid))"
    by auto
  then have "length (filter (\<lambda>(u, s). s = sid) obj) + length (filter (\<lambda>(u, s). s \<noteq> sid) obj) = length obj"
    using sum_length_filter_compl [of "\<lambda>(u, s). s = sid" obj] by simp
  ultimately show ?thesis
    using disconnect_registry [OF d, of sid] by simp
qed

lemma disconnect_loop_events:
  "e \<in> set (snd (disconnect_loop sid us obj)) \<Longrightarrow> \<exists>r. e = updateOnline r"
  by (induction us arbitrary: obj) (auto simp: Let_def case_prod_beta split: if_splits)

text \<open>
  C8. On a disconnect, in any registry the server can reach: when some entry holds the
  socket id of the disconnecting connection, the entries holding it are removed, every
  other entry stays, one event is emitted per removed entry, and the last event is
  \<^verbatim>\<open>io.emit('updateOnline', names)\<close> with \<open>names\<close> the usernames that remain in the registry,
  in registry order; when no entry holds it, the registry is unchanged and nothing is
  emitted.
\<close>

theorem disconnect_presence:
  "(socket_id \<in> snd ` set (registry_after evs) \<longrightarrow>
      fst (disconnect socket_id (registry_after evs)) =
        filter (\<lambda>(u, s). s \<noteq> socket_id) (registry_after evs) \<and>
      snd (disconnect socket_id (registry_after evs)) \<noteq> [] \<and>
      length (snd (disconnect socket_id (registry_after evs))) =
        length (filter (\<lambda>(u, s). s = socket_id) (registry_after evs)) \<and>
      last (snd (disconnect socket_id (registry_after evs))) =
        io_emit ''updateOnline''
          (JArr (map JStr (map fst (filter (\<lambda>(u, s). s \<noteq> socket_id) (registry_after evs)))))) \<and>
   (socket_id \<notin> snd ` set (registry_after evs) \<longrightarrow>
      disconnect socket_id (registry_after evs) = (registry_after evs, []))"
proof -
  define obj where "obj = registry_after evs"
  have d: "distinct (map fst obj)"
    using registry_after_ok [of evs] by (simp add: registry_ok_def obj_def)
  have reg: "fst (disconnect socket_id obj) = filter (\<lambda>(u, s). s \<noteq> socket_id) obj"
    using d by (rule disconnect_registry)
  have cnt: "length (snd (disconnect socket_id obj)) = length (filter (\<lambda>(u, s). s = socket_id) obj)"
    using d by (rule disconnect_count)
  have present: "snd (disconnect socket_id obj) \<noteq> []" if "socket_id \<in> snd ` set obj"
  proof -
    from that have "filter (\<lambda>(u, s). s = socket_id) obj \<noteq> []"
      by (force simp: filter_empty_conv)
    with cnt show ?thesis by auto
  qed
  have lst: "last (snd (disconnect socket_id obj)) =
      io_emit ''updateOnline'' (JArr (map JStr (map fst (filter (\<lambda>(u, s). s \<noteq> socket_id) obj))))"
    if "socket_id \<in> snd ` set obj"
  proof -
    have "last (snd (disconnect socket_id obj)) = updateOnline (fst (disconnect socket_id obj))"
      using present [OF that] unfolding disconnect_def by (rule disconnect_loop_last)
    then show ?thesis unfolding reg by (simp add: updateOnline_def Object_keys_def)
  qed
  have absent: "disconnect socket_id obj = (obj, [])" if "socket_id \<notin> snd ` set obj"
  proof -
    from that have "filter (\<lambda>(u, s). s = socket_id) obj = []"
      by (force simp: filter_empty_conv)
    with cnt have "snd (disconnect socket_id obj) = []" by simp
    moreover from that have "filter (\<lambda>(u, s). s \<noteq> socket_id) obj = obj"
      by (force simp: filter_id_conv)
    ultimately show ?thesis using reg by (simp add: prod_eq_iff)
  qed
  from reg cnt present lst absent show ?thesis unfolding obj_def by blast
qed

theorem disconnect_presence_witness:
  "''s1'' \<in> snd ` set (registry_after [On_userOnline ''s1'' ''ann'', On_userOnline ''s2'' ''bob'']) \<and>
   fst (disconnect ''s1'' (registry_after [On_userOnline ''s1'' ''ann'', On_userOnline ''s2'' ''bob''])) = [(''bob'', ''s2'')] \<and>
   snd (disconnect ''s1'' (registry_after [On_userOnline ''s1'' ''ann'', On_userOnline ''s2'' ''bob''])) \<noteq> [] \<and>
   length (snd (disconnect ''s1'' (registry_after [On_userOnline ''s1'' ''ann'', On_userOnline ''s2'' ''bob'']))) = 1 \<and>
   last (snd (disconnect ''s1'' (registry_after [On_userOnline ''s1'' ''ann'', On_userOnline ''s2'' ''bob'']))) = io_emit ''updateOnline'' (JArr [JStr ''bob'']) \<and>
   ''s3'' \<notin> snd ` set (registry_after [On_userOnline ''s1'' ''ann'', On_userOnline ''s2'' ''bob'']) \<and>
   disconnect ''s3'' (registry_after [On_userOnline ''s1'' ''ann'', On_userOnline ''s2'' ''bob'']) = ([(''ann'', ''s1''), (''bob'', ''s2'')], [])"
proof -
  have r: "(registry_after [On_userOnline ''s1'' ''ann'', On_userOnline ''s2'' ''bob'']) = [(''ann'', ''s1''), (''bob'', ''s2'')]"
    by code_simp
  have present: "''s1'' \<in> snd ` set (registry_after [On_userOnline ''s1'' ''ann'', On_userOnline ''s2'' ''bob''])"
    unfolding r by simp
  have absent: "''s3'' \<notin> snd ` set (registry_after [On_userOnline ''s1'' ''ann'', On_userOnline ''s2'' ''bob''])"
    unfolding r by simp
  have kept: "filter (\<lambda>(u, s). s \<noteq> ''s1'') (registry_after [On_userOnline ''s1'' ''ann'', On_userOnline ''s2'' ''bob'']) = [(''bob'', ''s2'')]"
    unfolding r by simp
  have gone: "length (filter (\<lambda>(u, s). s = ''s1'') (registry_after [On_userOnline ''s1'' ''ann'', On_userOnline ''s2'' ''bob''])) = 1"
    unfolding r by simp
  from present disconnect_presence [of "''s1''" "[On_userOnline ''s1'' ''ann'', On_userOnline ''s2'' ''bob'']"]
  have "fst (disconnect ''s1'' (registry_after [On_userOnline ''s1'' ''ann'', On_userOnline ''s2'' ''bob''])) = [(''bob'', ''s2'')]"
    and "snd (disconnect ''s1'' (registry_after [On_userOnline ''s1'' ''ann'', On_userOnline ''s2'' ''bob''])) \<noteq> []"
    and "length (snd (disconnect ''s1'' (registry_after [On_userOnline ''s1'' ''ann'', On_userOnline ''s2'' ''bob'']))) = 1"
    and "last (snd (disconnect ''s1'' (registry_after [On_userOnline ''s1'' ''ann'', On_userOnline ''s2'' ''bob'']))) = io_emit ''updateOnline'' (JArr [JStr ''bob''])"
    unfolding kept gone by simp_all
  moreover from absent disconnect_presence [of "''s3''" "[On_userOnline ''s1'' ''ann'', On_userOnline ''s2'' ''bob'']"]
  have "disconnect ''s3'' (registry_after [On_userOnline ''s1'' ''ann'', On_userOnline ''s2'' ''bob'']) = ([(''ann'', ''s1''), (''bob'', ''s2'')], [])"
    unfolding r by simp
  ultimately show ?thesis using present absent by blast
qed

subsection \<open>Several usernames on one connection\<close>

lemma userOnline_keeps:
  "map_of obj u = Some sid \<Longrightarrow> map_of (fst (userOnline sid v obj)) u = Some sid"
  by (cases "v = ''__proto__''") (simp_all add: userOnline_def Let_def map_of_obj_set, simp add: obj_set_def)

lemma userOnline_accepted:
  "length (Object_keys obj) < 4 \<Longrightarrow> v \<noteq> ''__proto__'' \<Longrightarrow> map_of (fst (userOnline sid v obj)) v = Some sid"
  by (simp add: userOnline_def Let_def map_of_obj_set)

lemma announce_all_Cons:
  "announce_all sid (u # us) obj = announce_all sid us (fst (userOnline sid u obj))"
  by (simp add: announce_all_def case_prod_beta)

lemma announce_all_keeps:
  "map_of obj u = Some sid \<Longrightarrow> map_of (announce_all sid vs obj) u = Some sid"
proof (induction vs arbitrary: obj)
  case Nil
  then show ?case by (simp add: announce_all_def)
next
  case (Cons v vs)
  from Cons.IH [OF userOnline_keeps [OF Cons.prems, of v]]
  show ?case by (simp add: announce_all_Cons)
qed

lemma announce_all_owned:
  "accepted_announcements sid names obj \<Longrightarrow> ''__proto__'' \<notin> set names \<Longrightarrow> u \<in> set names \<Longrightarrow>
   map_of (announce_all sid names obj) u = Some sid"
proof (induction names arbitrary: obj)
  case Nil
  then show ?case by simp
next
  case (Cons v vs)
  show ?case
  proof (cases "u = v")
    case True
    with Cons.prems have "map_of (fst (userOnline sid v obj)) u = Some sid"
      by (auto intro!: userOnline_accepted)
    then show ?thesis unfolding announce_all_Cons by (rule announce_all_keeps)
  next
    case False
    with Cons.prems have "map_of (announce_all sid vs (fst (userOnline sid v obj))) u = Some sid"
      by (intro Cons.IH) auto
    then show ?thesis by (simp add: announce_all_Cons)
  qed
qed

lemma announce_all_ok: "registry_ok obj \<Longrightarrow> registry_ok (announce_all sid names obj)"
  unfolding announce_all_def by (rule run_events_ok)

lemma owned_slots:
  assumes d: "distinct (map fst obj)" and n: "distinct names"
    and own: "\<forall>u\<in>set names. map_of obj u = Some sid"
  shows "length (filter (\<lambda>(u, s). u \<in> set names \<and> s = sid) obj) = length names"
proof -
  let ?sel = "filter (\<lambda>(u, s). u \<in> set names \<and> s = sid) obj"
  have "distinct (map fst ?sel)" using d by (rule distinct_map_filter)
  moreover have "set (map fst ?sel) = set names"
  proof
    show "set (map fst ?sel) \<subseteq> set names" by auto
    show "set names \<subseteq> set (map fst ?sel)"
    proof
      fix u assume u: "u \<in> set names"
      with own have "(u, sid) \<in> set obj" by (auto dest: map_of_SomeD)
      with u show "u \<in> set (map fst ?sel)" by force
    qed
  qed
  ultimately have "length (map fst ?sel) = length names"
    using n by (metis distinct_card)
  then show ?thesis by simp
qed

text \<open>
  C10, as amended. Capacity is counted per announced username. When one socket announces
  \<open>k\<close> distinct usernames, none of them the name \<^verbatim>\<open>__proto__\<close>, and each announcement finds
  the registry below capacity, then afterwards \<open>k\<close> entries of the registry carry these
  names and that socket's id. When the socket disconnects, exactly the entries holding its
  id are removed, and the handler emits one \<^verbatim>\<open>updateOnline\<close> broadcast per removed entry and
  nothing else.
\<close>

theorem capacity_per_username:
  assumes "distinct names" and "''__proto__'' \<notin> set names"
    and "accepted_announcements socket_id names (registry_after evs)"
  shows "length (filter (\<lambda>(u, s). u \<in> set names \<and> s = socket_id)
            (announce_all socket_id names (registry_after evs))) = length names \<and>
         fst (disconnect socket_id (announce_all socket_id names (registry_after evs))) =
           filter (\<lambda>(u, s). s \<noteq> socket_id) (announce_all socket_id names (registry_after evs)) \<and>
         length (snd (disconnect socket_id (announce_all socket_id names (registry_after evs)))) =
           length (filter (\<lambda>(u, s). s = socket_id) (announce_all socket_id names (registry_after evs))) \<and>
         (\<forall>e \<in> set (snd (disconnect socket_id (announce_all socket_id names (registry_after evs)))).
            \<exists>r. e = updateOnline r)"
proof -
  define obj where "obj = announce_all socket_id names (registry_after evs)"
  have "registry_ok obj"
    unfolding obj_def using registry_after_ok by (rule announce_all_ok)
  then have d: "distinct (map fst obj)" by (simp add: registry_ok_def)
  have own: "\<forall>u\<in>set names. map_of obj u = Some socket_id"
    unfolding obj_def using assms(3,2) by (auto intro: announce_all_owned)
  have "length (filter (\<lambda>(u, s). u \<in> set names \<and> s = socket_id) obj) = length names"
    using d assms(1) own by (rule owned_slots)
  moreover have "fst (disconnect socket_id obj) = filter (\<lambda>(u, s). s \<noteq> socket_id) obj"
    using d by (rule disconnect_registry)
  moreover have "length (snd (disconnect socket_id obj)) = length (filter (\<lambda>(u, s). s = socket_id) obj)"
    using d by (rule disconnect_count)
  moreover have "\<forall>e \<in> set (snd (disconnect socket_id obj)). \<exists>r. e = updateOnline r"
    unfolding disconnect_def by (blast dest: disconnect_loop_events)
  ultimately show ?thesis unfolding obj_def by blast
qed

theorem capacity_per_username_witness:
  "distinct [''bob'', ''cy''] \<and> ''__proto__'' \<notin> set [''bob'', ''cy''] \<and>
   accepted_announcements ''s2'' [''bob'', ''cy''] (registry_after [On_userOnline ''s1'' ''ann'']) \<and>
   length (filter (\<lambda>(u, s). u \<in> set [''bob'', ''cy''] \<and> s = ''s2'')
      (announce_all ''s2'' [''bob'', ''cy''] (registry_after [On_userOnline ''s1'' ''ann'']))) = 2 \<and>
   fst (disconnect ''s2'' (announce_all ''s2'' [''bob'', ''cy''] (registry_after [On_userOnline ''s1'' ''ann'']))) =
     filter (\<lambda>(u, s). s \<noteq> ''s2'')
       (announce_all ''s2'' [''bob'', ''cy''] (registry_after [On_userOnline ''s1'' ''ann''])) \<and>
   length (snd (disconnect ''s2'' (announce_all ''s2'' [''bob'', ''cy''] (registry_after [On_userOnline ''s1'' ''ann''])))) =
     length (filter (\<lambda>(u, s). s = ''s2'')
       (announce_all ''s2'' [''bob'', ''cy''] (registry_after [On_userOnline ''s1'' ''ann'']))) \<and>
   disconnect ''s2'' (announce_all ''s2'' [''bob'', ''cy''] (registry_after [On_userOnline ''s1'' ''ann''])) =
     ([(''ann'', ''s1'')],
      [io_emit ''updateOnline'' (JArr [JStr ''ann'', JStr ''cy'']),
       io_emit ''updateOnline'' (JArr [JStr ''ann''])])"
proof -
  have d: "distinct [''bob'', ''cy'']" by simp
  have p: "''__proto__'' \<notin> set [''bob'', ''cy'']" by simp
  have a: "accepted_announcements ''s2'' [''bob'', ''cy''] (registry_after [On_userOnline ''s1'' ''ann''])"
    by code_simp
  have run: "disconnect ''s2'' (announce_all ''s2'' [''bob'', ''cy''] (registry_after [On_userOnline ''s1'' ''ann''])) =
     ([(''ann'', ''s1'')],
      [io_emit ''updateOnline'' (JArr [JStr ''ann'', JStr ''cy'']),
       io_emit ''updateOnline'' (JArr [JStr ''ann''])])"
    by code_simp
  from capacity_per_username [OF d p a]
  have slots: "length (filter (\<lambda>(u, s). u \<in> set [''bob'', ''cy''] \<and> s = ''s2'')
      (announce_all ''s2'' [''bob'', ''cy''] (registry_after [On_userOnline ''s1'' ''ann'']))) =
      length [''bob'', ''cy'']"
    and removed: "fst (disconnect ''s2'' (announce_all ''s2'' [''bob'', ''cy''] (registry_after [On_userOnline ''s1'' ''ann'']))) =
     filter (\<lambda>(u, s). s \<noteq> ''s2'')
       (announce_all ''s2'' [''bob'', ''cy''] (registry_after [On_userOnline ''s1'' ''ann'']))"
    and count: "length (snd (disconnect ''s2'' (announce_all ''s2'' [''bob'', ''cy''] (registry_after [On_userOnline ''s1'' ''ann''])))) =
     length (filter (\<lambda>(u, s). s = ''s2'')
       (announce_all ''s2'' [''bob'', ''cy''] (registry_after [On_userOnline ''s1'' ''ann''])))"
    by blast+
  from slots have two: "length (filter (\<lambda>(u, s). u \<in> set [''bob'', ''cy''] \<and> s = ''s2'')
      (announce_all ''s2'' [''bob'', ''cy''] (registry_after [On_userOnline ''s1'' ''ann'']))) = 2"
    by simp
  from d p a two removed count run show ?thesis by blast
qed

text \<open>
  C10 as stated fails for the name \<^verbatim>\<open>__proto__\<close>: the announcement is accepted and an
  \<^verbatim>\<open>updateOnline\<close> broadcast goes out, but the assignment \<^verbatim>\<open>onlineUsers["__proto__"] = socket.id\<close>
  creates no property, so the announced name occupies no slot.
\<close>

theorem capacity_per_username_counterexample:
  "distinct [''__proto__''] \<and>
   accepted_announcements ''s1'' [''__proto__''] (registry_after []) \<and>
   run_events [On_userOnline ''s1'' ''__proto__''] [] = ([], [io_emit ''updateOnline'' (JArr [])]) \<and>
   length (filter (\<lambda>(u, s). u \<in> set [''__proto__''] \<and> s = ''s1'')
      (announce_all ''s1'' [''__proto__''] (registry_after []))) \<noteq> length [''__proto__'']"
  by (simp add: registry_after_def announce_all_def userOnline_def obj_set_def Object_keys_def
      updateOnline_def)

section \<open>Properties of the data access layer\<close>

text \<open>
  Whatever the backend, the SQL text and the parameters reach the client library exactly
  as the caller wrote them.
\<close>

lemma runQuery_passes_text:
  "call_sql (the (snd (runQuery recording_engine t sql params None))) = sql \<and>
   call_params (the (snd (runQuery recording_engine t sql params None))) = params"
  by (simp add: runQuery_def recording_engine_def)

lemma runExecute_passes_text:
  "call_sql (the (snd (runExecute recording_engine t sql params None))) = sql \<and>
   call_params (the (snd (runExecute recording_engine t sql params None))) = params"
  by (simp add: runExecute_def recording_engine_def)

text \<open>
  C1. The layer is to deliver numbered placeholders to the networked backend. On
  \<^verbatim>\<open>dbType = "postgres"\<close> the register handler's statement reaches \<^verbatim>\<open>pool.query\<close> with
  its four \<^verbatim>\<open>?\<close> untouched, where the translation the specification describes would
  have produced the text the PostgreSQL-only variant of the handler writes by hand.
\<close>

theorem register_postgres_untranslated:
  "snd (register recording_engine postgres example_request None) =
     Some (pool_query ''INSERT INTO users(username,password,profile_pic,usb_key) VALUES(?,?,?,?)''
             [JStr ''ann'', JStr ''pw'', JStr [], JNull]) \<and>
   spec_required_sql postgres register_sql =
     ''INSERT INTO users(username,password,profile_pic,usb_key) VALUES($1,$2,$3,$4)'' \<and>
   spec_required_sql postgres register_sql = register_sql_pg \<and>
   call_sql (the (snd (register recording_engine postgres example_request None))) \<noteq>
     spec_required_sql postgres register_sql \<and>
   call_sql (the (snd (register recording_engine sqlite example_request None))) =
     spec_required_sql sqlite register_sql"
proof -
  have pg: "snd (register recording_engine postgres example_request None) =
     Some (pool_query ''INSERT INTO users(username,password,profile_pic,usb_key) VALUES(?,?,?,?)''
             [JStr ''ann'', JStr ''pw'', JStr [], JNull])"
    by (simp add: register_def example_request_def nullish_def runExecute_def recording_engine_def
        register_params_def register_sql_def js_or_def)
  have want: "spec_required_sql postgres register_sql =
     ''INSERT INTO users(username,password,profile_pic,usb_key) VALUES($1,$2,$3,$4)''"
    by code_simp
  have same: "spec_required_sql postgres register_sql = register_sql_pg"
    by code_simp
  have differ: "call_sql (the (snd (register recording_engine postgres example_request None))) \<noteq>
     spec_required_sql postgres register_sql"
    unfolding pg want by simp
  have lite: "call_sql (the (snd (register recording_engine sqlite example_request None))) =
     spec_required_sql sqlite register_sql"
    by (simp add: register_def example_request_def nullish_def runExecute_def recording_engine_def
        spec_required_sql_def)
  from pg want same differ lite show ?thesis by blast
qed

section \<open>The embedded store answering the handlers' statements\<close>

lemma sql_texts_differ:
  "register_sql \<noteq> message_sql" "login_sql \<noteq> messages_sql"
  by (simp_all add: register_sql_def message_sql_def login_sql_def messages_sql_def)

lemma to_text_again: "to_text render (to_text render v) = to_text render v"
  by (cases v) simp_all

lemma to_text_string: "to_text render (JStr s) = JStr s"
  by simp

lemma to_text_number: "int32 n \<Longrightarrow> to_text render (JNum n) = JStr (decimal n)"
  by simp

lemma js_get_nullish: "nullish b \<Longrightarrow> js_get b k = JUndefined"
  by (auto simp: nullish_def)

lemma to_text_kept: "to_text render v = v \<longleftrightarrow> text_or_null v"
  by (cases v) auto

lemma sqlite_register_fresh:
  "\<not> list_ex (\<lambda>row. sql_eq render (js_get row ''username'') u) (users db) \<Longrightarrow>
   runExecute (sqlite_engine render ts) sqlite register_sql [u, p, pic, k] db =
     (Inr [],
      db\<lparr>users := users db @
           [user_row (Suc (length (users db)))
              (to_text render u) (to_text render p) (to_text render pic) (to_text render k)]\<rparr>)"
  by (simp add: runExecute_def sqlite_run_def)

lemma sqlite_register_taken:
  "list_ex (\<lambda>row. sql_eq render (js_get row ''username'') u) (users db) \<Longrightarrow>
   runExecute (sqlite_engine render ts) sqlite register_sql [u, p, pic, k] db =
     (Inl ConstraintViolation, db)"
  by (simp add: runExecute_def sqlite_run_def)

lemma register_params_shape:
  "\<exists>p pic k. register_params req = [js_get (req_body req) ''username'', p, pic, k]"
  by (simp add: register_params_def Let_def)

lemma sqlite_message_insert:
  "runExecute (sqlite_engine render ts) sqlite message_sql [s, m] db =
     (Inr [],
      db\<lparr>messages := messages db @
           [message_row (Suc (length (messages db))) (to_text render s) (to_text render m) ts]\<rparr>)"
  using sql_texts_differ by (simp add: runExecute_def sqlite_run_def)

lemma sqlite_login_query:
  "runQuery (sqlite_engine render ts) sqlite login_sql [u, p] db =
     (Inr (filter (\<lambda>row. sql_eq render (js_get row ''username'') u \<and>
                         sql_eq render (js_get row ''password'') p)
            (users db)), db)"
  by (simp add: runQuery_def sqlite_all_def)

lemma sqlite_messages_query:
  "runQuery (sqlite_engine render ts) sqlite messages_sql [] db =
     (Inr (sort_key timestamp_of (messages db)), db)"
  using sql_texts_differ by (simp add: runQuery_def sqlite_all_def)

section \<open>Store failures at the handler boundary\<close>

text \<open>
  Each handler turns a rejected store call into a reply: register, login and post-message
  answer \<^verbatim>\<open>success: false\<close>, fetch-history answers the empty array.
\<close>

lemma register_store_failure:
  "fst (runExecute eng t register_sql (register_params req) db) = Inl err \<Longrightarrow>
   fst (register eng t req db) =
     res_json (JObj [(''success'', JBool False), (''message'', JStr ''Username exists'')])"
  by (cases "runExecute eng t register_sql (register_params req) db") (simp add: register_def)

lemma login_store_failure:
  "fst (runQuery eng t login_sql
      [js_get (req_body req) ''username'', js_get (req_body req) ''password''] db) = Inl err \<Longrightarrow>
   fst (login eng t req db) = res_json (JObj [(''success'', JBool False)])"
  by (cases "runQuery eng t login_sql
      [js_get (req_body req) ''username'', js_get (req_body req) ''password''] db")
    (simp add: login_def Let_def)

lemma post_message_store_failure:
  "fst (runExecute eng t message_sql
      [js_get (req_body req) ''sender'', js_get (req_body req) ''message''] db) = Inl err \<Longrightarrow>
   fst (post_message eng t now req db) = res_json (JObj [(''success'', JBool False)]) \<and>
   fst (snd (post_message eng t now req db)) = []"
  by (cases "runExecute eng t message_sql
      [js_get (req_body req) ''sender'', js_get (req_body req) ''message''] db")
    (simp add: post_message_def Let_def)

lemma get_messages_store_failure:
  "fst (runQuery eng t messages_sql [] db) = Inl err \<Longrightarrow>
   fst (get_messages eng t db) = res_json (JArr [])"
  by (cases "runQuery eng t messages_sql [] db") (simp add: get_messages_def)

lemma register_pg_store_failure:
  "fst (runExecute_pg eng register_sql_pg (register_params req) db) = Inl err \<Longrightarrow>
   fst (register_pg eng req db) =
     res_status_json 400
       (JObj [(''success'', JBool False), (''message'', JStr ''Username exists or invalid data'')])"
  by (cases "runExecute_pg eng register_sql_pg (register_params req) db") (simp add: register_pg_def)

text \<open>
  C6. A failure reply is to be distinguishable from a success reply. For
  \<^verbatim>\<open>GET /messages\<close> in \<^verbatim>\<open>server.js\<close> it is not: with the store unreachable the reply is
  status 200 with body \<^verbatim>\<open>[]\<close>, the very reply an empty message table gets. The same
  handler in the PostgreSQL-only variant answers a failure with status 500.
\<close>

theorem get_messages_failure_like_empty_history:
  "fst (get_messages (failing_engine ConnectivityLoss) sqlite \<lparr>users = [], messages = []\<rparr>) =
     \<lparr>status = 200, json = JArr []\<rparr> \<and>
   fst (get_messages (sqlite_engine render 0) sqlite \<lparr>users = [], messages = []\<rparr>) =
     \<lparr>status = 200, json = JArr []\<rparr> \<and>
   fst (get_messages_pg (failing_engine ConnectivityLoss) \<lparr>users = [], messages = []\<rparr>) =
     \<lparr>status = 500, json = JArr []\<rparr>"
  by (simp add: get_messages_def get_messages_pg_def runQuery_def runQuery_pg_def failing_engine_def
      sqlite_all_def res_json_def res_status_json_def messages_sql_def login_sql_def)

section \<open>Register\<close>

text \<open>
  C4, as amended. The register handler does not tell failure causes apart: for every
  request and every engine, whatever error the insert is rejected with, the reply is
  \<^verbatim>\<open>{success: false, message: "Username exists"}\<close> (status 400 and
  \<^verbatim>\<open>"Username exists or invalid data"\<close> in the PostgreSQL-only variant). On the embedded
  store, registering a username that is present in the request and that no stored row holds
  succeeds, and a second registration of the same username (the same text, once the TEXT
  column has converted it) gets that failure reply.
\<close>

theorem register_failure_reply:
  "(fst (runExecute eng t register_sql (register_params req0) db0) = Inl err \<longrightarrow>
      fst (register eng t req0 db0) =
        res_json (JObj [(''success'', JBool False), (''message'', JStr ''Username exists'')])) \<and>
   (fst (runExecute_pg eng register_sql_pg (register_params req0) db0) = Inl err \<longrightarrow>
      fst (register_pg eng req0 db0) =
        res_status_json 400
          (JObj [(''success'', JBool False), (''message'', JStr ''Username exists or invalid data'')])) \<and>
   (to_text render (js_get (req_body req) ''username'') \<noteq> JNull \<and>
    to_text render (js_get (req_body req2) ''username'') =
      to_text render (js_get (req_body req) ''username'') \<and>
    \<not> list_ex (\<lambda>row. sql_eq render (js_get row ''username'') (js_get (req_body req) ''username''))
         (users db) \<longrightarrow>
      fst (register (sqlite_engine render ts) sqlite req db) =
        res_json (JObj [(''success'', JBool True)]) \<and>
      fst (register (sqlite_engine render ts2) sqlite req2
             (snd (register (sqlite_engine render ts) sqlite req db))) =
        res_json (JObj [(''success'', JBool False), (''message'', JStr ''Username exists'')]))"
proof -
  have twice:
    "fst (register (sqlite_engine render ts) sqlite req db) =
        res_json (JObj [(''success'', JBool True)]) \<and>
     fst (register (sqlite_engine render ts2) sqlite req2
             (snd (register (sqlite_engine render ts) sqlite req db))) =
        res_json (JObj [(''success'', JBool False), (''message'', JStr ''Username exists'')])"
    if named: "to_text render (js_get (req_body req) ''username'') \<noteq> JNull"
      and same: "to_text render (js_get (req_body req2) ''username'') =
        to_text render (js_get (req_body req) ''username'')"
      and fresh: "\<not> list_ex (\<lambda>row. sql_eq render (js_get row ''username'')
        (js_get (req_body req) ''username'')) (users db)"
  proof -
    define u where "u = js_get (req_body req) ''username''"
    define u2 where "u2 = js_get (req_body req2) ''username''"
    obtain p pic k where ps: "register_params req = [u, p, pic, k]"
      using register_params_shape [of req] unfolding u_def by blast
    obtain p2 pic2 k2 where ps2: "register_params req2 = [u2, p2, pic2, k2]"
      using register_params_shape [of req2] unfolding u2_def by blast
    have body: "\<not> nullish (req_body req)"
      using named js_get_nullish [of "req_body req" "''username''"] by auto
    define db1 where "db1 = db\<lparr>users := users db @
      [user_row (Suc (length (users db)))
         (to_text render u) (to_text render p) (to_text render pic) (to_text render k)]\<rparr>"
    have first: "register (sqlite_engine render ts) sqlite req db =
        (res_json (JObj [(''success'', JBool True)]), db1)"
      using body fresh sqlite_register_fresh [of render u db ts p pic k]
      by (simp add: register_def ps u_def db1_def)
    have "sql_eq render (js_get (user_row (Suc (length (users db)))
        (to_text render u) (to_text render p) (to_text render pic) (to_text render k)) ''username'') u2"
      using named same by (simp add: user_row_def sql_eq_def to_text_again u_def u2_def)
    then have taken: "list_ex (\<lambda>row. sql_eq render (js_get row ''username'') u2) (users db1)"
      by (simp add: db1_def list_ex_iff)
    have second: "fst (register (sqlite_engine render ts2) sqlite req2 db1) =
        res_json (JObj [(''success'', JBool False), (''message'', JStr ''Username exists'')])"
      using sqlite_register_taken [OF taken, of ts2 p2 pic2 k2]
      by (simp add: register_def ps2)
    from first second show ?thesis by simp
  qed
  from twice register_store_failure [of eng t req0 db0 err]
    register_pg_store_failure [of eng req0 db0 err]
  show ?thesis by blast
qed

theorem register_failure_reply_witness:
  "fst (register (failing_engine ConnectivityLoss) sqlite example_request empty_store) =
     res_json (JObj [(''success'', JBool False), (''message'', JStr ''Username exists'')]) \<and>
   fst (register_pg (failing_engine ConnectivityLoss) example_request empty_store) =
     res_status_json 400
       (JObj [(''success'', JBool False), (''message'', JStr ''Username exists or invalid data'')]) \<and>
   fst (register (sqlite_engine unused_render 1) sqlite number_name_request empty_store) =
     res_json (JObj [(''success'', JBool True)]) \<and>
   users (snd (register (sqlite_engine unused_render 1) sqlite number_name_request empty_store)) =
     [JObj [(''id'', JNum 1), (''username'', JStr ''123''), (''password'', JStr ''pw''),
            (''profile_pic'', JStr []), (''usb_key'', JNull)]] \<and>
   fst (register (sqlite_engine unused_render 2) sqlite text_name_request
          (snd (register (sqlite_engine unused_render 1) sqlite number_name_request empty_store))) =
     res_json (JObj [(''success'', JBool False), (''message'', JStr ''Username exists'')])"
proof -
  have number: "to_text unused_render (JNum 123) = JStr ''123''"
    by code_simp
  have named: "to_text unused_render (js_get (req_body number_name_request) ''username'') \<noteq> JNull"
    using number by (simp add: number_name_request_def)
  have same: "to_text unused_render (js_get (req_body text_name_request) ''username'') =
      to_text unused_render (js_get (req_body number_name_request) ''username'')"
    using number by (simp add: number_name_request_def text_name_request_def)
  have fresh: "\<not> list_ex (\<lambda>row. sql_eq unused_render (js_get row ''username'')
                   (js_get (req_body number_name_request) ''username'')) (users empty_store)"
    by (simp add: empty_store_def)
  have f1: "fst (runExecute (failing_engine ConnectivityLoss) sqlite register_sql
                  (register_params example_request) empty_store) = Inl ConnectivityLoss"
    by (simp add: runExecute_def failing_engine_def)
  have f2: "fst (runExecute_pg (failing_engine ConnectivityLoss) register_sql_pg
                  (register_params example_request) empty_store) = Inl ConnectivityLoss"
    by (simp add: runExecute_pg_def failing_engine_def)
  have stored: "users (snd (register (sqlite_engine unused_render 1) sqlite number_name_request
      empty_store)) =
     [JObj [(''id'', JNum 1), (''username'', JStr ''123''), (''password'', JStr ''pw''),
            (''profile_pic'', JStr []), (''usb_key'', JNull)]]"
    using number
    by (simp add: register_def number_name_request_def nullish_def register_params_def js_or_def
        runExecute_def sqlite_run_def empty_store_def user_row_def)
  from f1 f2 named same fresh stored
    register_failure_reply [where eng = "failing_engine ConnectivityLoss" and t = sqlite
      and ?req0.0 = example_request and ?db0.0 = empty_store and err = ConnectivityLoss
      and render = unused_render and req = number_name_request and ?req2.0 = text_name_request
      and db = empty_store and ts = 1 and ?ts2.0 = 2]
  show ?thesis by blast
qed

text \<open>
  C4 as stated asks for a distinct generic failure when the insert fails for another reason
  than the unique constraint. A lost connection and a constraint violation get the same
  reply, in both variants of the handler. And a registration without a username can be
  repeated: the parameter is bound as NULL, which the UNIQUE constraint admits any number
  of times.
\<close>

theorem register_failure_reply_counterexample:
  "fst (register (failing_engine ConnectivityLoss) sqlite example_request empty_store) =
     \<lparr>status = 200, json = JObj [(''success'', JBool False), (''message'', JStr ''Username exists'')]\<rparr> \<and>
   fst (register (failing_engine ConstraintViolation) sqlite example_request empty_store) =
     \<lparr>status = 200, json = JObj [(''success'', JBool False), (''message'', JStr ''Username exists'')]\<rparr> \<and>
   fst (register_pg (failing_engine ConnectivityLoss) example_request empty_store) =
     \<lparr>status = 400,
      json = JObj [(''success'', JBool False), (''message'', JStr ''Username exists or invalid data'')]\<rparr> \<and>
   fst (register_pg (failing_engine ConstraintViolation) example_request empty_store) =
     \<lparr>status = 400,
      json = JObj [(''success'', JBool False), (''message'', JStr ''Username exists or invalid data'')]\<rparr> \<and>
   fst (register (sqlite_engine unused_render 2) sqlite nameless_request
          (snd (register (sqlite_engine unused_render 1) sqlite nameless_request empty_store))) =
     \<lparr>status = 200, json = JObj [(''success'', JBool True)]\<rparr>"
proof -
  have "fst (register (sqlite_engine unused_render 2) sqlite nameless_request
          (snd (register (sqlite_engine unused_render 1) sqlite nameless_request empty_store))) =
     \<lparr>status = 200, json = JObj [(''success'', JBool True)]\<rparr>"
    by (simp add: register_def nameless_request_def nullish_def register_params_def js_or_def
        runExecute_def sqlite_run_def empty_store_def user_row_def sql_eq_def res_json_def)
  then show ?thesis
    by (simp add: register_def register_pg_def runExecute_def runExecute_pg_def failing_engine_def
        example_request_def nullish_def res_json_def res_status_json_def)
qed

section \<open>Login\<close>

lemma keyed_store_ann:
  "runQuery (sqlite_engine render ts) sqlite login_sql [JStr ''ann'', JStr ''pw''] keyed_store =
     (Inr [JObj [(''id'', JNum 1), (''username'', JStr ''ann''), (''password'', JStr ''pw''),
                 (''profile_pic'', JStr []), (''usb_key'', JStr ''key-1'')]], keyed_store)"
  by (simp add: sqlite_login_query keyed_store_def user_row_def sql_eq_def)

lemma keyed_store_wrong_password:
  "runQuery (sqlite_engine render ts) sqlite login_sql [JStr ''ann'', JStr ''guess''] keyed_store =
     (Inr [], keyed_store)"
  by (simp add: sqlite_login_query keyed_store_def user_row_def sql_eq_def)

text \<open>
  C5. When the store answers the credential query with a row whose \<^verbatim>\<open>usb_key\<close> is a
  non-empty string and the request's \<^verbatim>\<open>usb_present\<close> is falsy, login replies
  \<^verbatim>\<open>"USB required"\<close>, not \<^verbatim>\<open>"Invalid login"\<close>. The second-factor check comes after the
  credential match: when the store answers with no row, the reply is \<^verbatim>\<open>"Invalid login"\<close>
  whatever \<^verbatim>\<open>usb_present\<close> is.
\<close>

theorem login_second_factor_required:
  assumes body: "\<not> nullish (req_body req)"
    and rows: "runQuery eng t login_sql
                 [js_get (req_body req) ''username'', js_get (req_body req) ''password''] db =
               (Inr (JObj cols # rest), db')"
    and key: "js_get (JObj cols) ''usb_key'' = JStr k" "k \<noteq> []"
    and absent: "\<not> truthy (js_get (req_body req) ''usb_present'')"
  shows
    "login eng t req db =
       (res_json (JObj [(''success'', JBool False), (''message'', JStr ''USB required'')]), db') \<and>
     js_get (json (fst (login eng t req db))) ''message'' \<noteq> JStr ''Invalid login'' \<and>
     (\<not> nullish (req_body req1) \<and>
      runQuery eng t login_sql
        [js_get (req_body req1) ''username'', js_get (req_body req1) ''password''] db1 = (Inr [], db1')
      \<longrightarrow> login eng t req1 db1 =
            (res_json (JObj [(''success'', JBool False), (''message'', JStr ''Invalid login'')]), db1'))"
  using assms by (simp add: login_def Let_def res_json_def)

theorem login_second_factor_required_witness:
  "login (sqlite_engine unused_render 5) sqlite (login_request ''ann'' ''pw'' (JBool False)) keyed_store =
     (res_json (JObj [(''success'', JBool False), (''message'', JStr ''USB required'')]), keyed_store) \<and>
   login (sqlite_engine unused_render 5) sqlite (login_request ''ann'' ''guess'' (JBool False)) keyed_store =
     (res_json (JObj [(''success'', JBool False), (''message'', JStr ''Invalid login'')]), keyed_store)"
proof -
  let ?req = "login_request ''ann'' ''pw'' (JBool False)"
  let ?req1 = "login_request ''ann'' ''guess'' (JBool False)"
  let ?cols = "[(''id'', JNum 1), (''username'', JStr ''ann''), (''password'', JStr ''pw''),
                (''profile_pic'', JStr []), (''usb_key'', JStr ''key-1'')]"
  have body: "\<not> nullish (req_body ?req)"
    by (simp add: login_request_def nullish_def)
  have rows: "runQuery (sqlite_engine unused_render 5) sqlite login_sql
      [js_get (req_body ?req) ''username'', js_get (req_body ?req) ''password''] keyed_store =
      (Inr (JObj ?cols # []), keyed_store)"
    using keyed_store_ann [of unused_render 5] by (simp add: login_request_def)
  have key: "js_get (JObj ?cols) ''usb_key'' = JStr ''key-1''" by simp
  have nonempty: "''key-1'' \<noteq> []" by simp
  have absent: "\<not> truthy (js_get (req_body ?req) ''usb_present'')"
    by (simp add: login_request_def)
  have body1: "\<not> nullish (req_body ?req1)"
    by (simp add: login_request_def nullish_def)
  have rows1: "runQuery (sqlite_engine unused_render 5) sqlite login_sql
      [js_get (req_body ?req1) ''username'', js_get (req_body ?req1) ''password''] keyed_store =
      (Inr [], keyed_store)"
    using keyed_store_wrong_password [of unused_render 5] by (simp add: login_request_def)
  from login_second_factor_required [OF body rows key nonempty absent, of ?req1 keyed_store keyed_store]
    body1 rows1
  show ?thesis by blast
qed

text \<open>
  C7. When the store answers the credential query with a row and the second-factor check
  passes, the reply is \<^verbatim>\<open>{success: true, user}\<close> with \<^verbatim>\<open>user\<close> the whole row the store
  returned, its \<^verbatim>\<open>password\<close> field included and unchanged. On the embedded store that row
  is a row of the users table whose username and password equal the request's.
\<close>

theorem login_returns_stored_row:
  assumes body: "\<not> nullish (req_body req)"
    and rows: "runQuery eng t login_sql
                 [js_get (req_body req) ''username'', js_get (req_body req) ''password''] db =
               (Inr (JObj cols # rest), db')"
    and passed: "\<not> (truthy (js_get (JObj cols) ''usb_key'') \<and>
                     \<not> truthy (js_get (req_body req) ''usb_present''))"
  shows
    "login eng t req db = (res_json (JObj [(''success'', JBool True), (''user'', JObj cols)]), db') \<and>
     js_get (js_get (json (fst (login eng t req db))) ''user'') ''password'' =
       js_get (JObj cols) ''password'' \<and>
     (runQuery (sqlite_engine render ts) sqlite login_sql [u, p] sdb = (Inr (row # others), sdb') \<longrightarrow>
        row \<in> set (users sdb) \<and> sql_eq render (js_get row ''username'') u \<and> sql_eq render (js_get row ''password'') p)"
proof -
  have stored: "row \<in> set (users sdb) \<and> sql_eq render (js_get row ''username'') u \<and>
      sql_eq render (js_get row ''password'') p"
    if "runQuery (sqlite_engine render ts) sqlite login_sql [u, p] sdb = (Inr (row # others), sdb')"
  proof -
    from that have "filter (\<lambda>row. sql_eq render (js_get row ''username'') u \<and>
        sql_eq render (js_get row ''password'') p) (users sdb) = row # others"
      by (auto simp: sqlite_login_query)
    then have "row \<in> set (filter (\<lambda>row. sql_eq render (js_get row ''username'') u \<and>
        sql_eq render (js_get row ''password'') p) (users sdb))"
      by simp
    then show ?thesis by simp
  qed
  have reply: "login eng t req db =
      (res_json (JObj [(''success'', JBool True), (''user'', JObj cols)]), db')"
    using body rows passed by (auto simp add: login_def Let_def simp del: js_get.simps)
  have "js_get (js_get (json (fst (login eng t req db))) ''user'') ''password'' =
       js_get (JObj cols) ''password''"
    unfolding reply by (simp add: res_json_def)
  with reply stored show ?thesis by blast
qed

theorem login_returns_stored_row_witness:
  "login (sqlite_engine unused_render 5) sqlite (login_request ''ann'' ''pw'' (JBool True)) keyed_store =
     (res_json (JObj [(''success'', JBool True),
        (''user'', JObj [(''id'', JNum 1), (''username'', JStr ''ann''), (''password'', JStr ''pw''),
                        (''profile_pic'', JStr []), (''usb_key'', JStr ''key-1'')])]), keyed_store) \<and>
   js_get (js_get (json (fst (login (sqlite_engine unused_render 5) sqlite
      (login_request ''ann'' ''pw'' (JBool True)) keyed_store))) ''user'') ''password'' = JStr ''pw'' \<and>
   JObj [(''id'', JNum 1), (''username'', JStr ''ann''), (''password'', JStr ''pw''),
         (''profile_pic'', JStr []), (''usb_key'', JStr ''key-1'')] \<in> set (users keyed_store)"
proof -
  let ?req = "login_request ''ann'' ''pw'' (JBool True)"
  let ?cols = "[(''id'', JNum 1), (''username'', JStr ''ann''), (''password'', JStr ''pw''),
                (''profile_pic'', JStr []), (''usb_key'', JStr ''key-1'')]"
  have body: "\<not> nullish (req_body ?req)"
    by (simp add: login_request_def nullish_def)
  have rows: "runQuery (sqlite_engine unused_render 5) sqlite login_sql
      [js_get (req_body ?req) ''username'', js_get (req_body ?req) ''password''] keyed_store =
      (Inr (JObj ?cols # []), keyed_store)"
    using keyed_store_ann [of unused_render 5] by (simp add: login_request_def)
  have passed: "\<not> (truthy (js_get (JObj ?cols) ''usb_key'') \<and>
      \<not> truthy (js_get (req_body ?req) ''usb_present''))"
    by (simp add: login_request_def)
  have pw: "js_get (JObj ?cols) ''password'' = JStr ''pw''" by simp
  from login_returns_stored_row [OF body rows passed,
      where render = unused_render and ts = 5 and u = "JStr ''ann''" and p = "JStr ''pw''"
        and sdb = keyed_store and row = "JObj ?cols" and others = "[]" and sdb' = keyed_store]
    keyed_store_ann [of unused_render 5] pw
  show ?thesis by (simp add: res_json_def)
qed

section \<open>Post message\<close>

lemma post_message_sqlite:
  assumes body: "\<not> nullish (req_body req)"
  shows
    "post_message (sqlite_engine render ts) sqlite now req db =
       (res_json (JObj [(''success'', JBool True)]),
        [io_emit ''newMessage''
           (JObj [(''sender'', js_get (req_body req) ''sender''),
                  (''message'', js_get (req_body req) ''message''),
                  (''timestamp'', JNum now)])],
        db\<lparr>messages := messages db @
             [message_row (Suc (length (messages db)))
                (to_text render (js_get (req_body req) ''sender''))
                (to_text render (js_get (req_body req) ''message'')) ts]\<rparr>)"
  using assms by (simp add: post_message_def Let_def sqlite_message_insert)

text \<open>
  C9, as amended. When the insert succeeds, \<^verbatim>\<open>POST /message\<close> emits exactly one event, a
  \<^verbatim>\<open>newMessage\<close> sent with \<^verbatim>\<open>io.emit\<close> to every connected client, whose \<^verbatim>\<open>sender\<close> and
  \<^verbatim>\<open>message\<close> are the request's values, the ones handed to the insert as its parameters. On
  the embedded store the row appended by the insert holds these two values as its TEXT
  columns convert them; when the request's sender and message are each a string or
  \<^verbatim>\<open>null\<close>, the event and the persisted row carry the same sender and the same message.
\<close>

theorem post_message_broadcast:
  "(\<not> nullish (req_body req) \<and>
    runExecute eng t message_sql
      [js_get (req_body req) ''sender'', js_get (req_body req) ''message''] db = (Inr r, db') \<longrightarrow>
      post_message eng t now req db =
        (res_json (JObj [(''success'', JBool True)]),
         [io_emit ''newMessage''
            (JObj [(''sender'', js_get (req_body req) ''sender''),
                   (''message'', js_get (req_body req) ''message''),
                   (''timestamp'', JNum now)])],
         db')) \<and>
   (\<not> nullish (req_body req1) \<longrightarrow>
      post_message (sqlite_engine render ts) sqlite now req1 sdb =
        (res_json (JObj [(''success'', JBool True)]),
         [io_emit ''newMessage''
            (JObj [(''sender'', js_get (req_body req1) ''sender''),
                   (''message'', js_get (req_body req1) ''message''),
                   (''timestamp'', JNum now)])],
         sdb\<lparr>messages := messages sdb @
               [JObj [(''id'', JNum (int (Suc (length (messages sdb))))),
                      (''sender'', to_text render (js_get (req_body req1) ''sender'')),
                      (''message'', to_text render (js_get (req_body req1) ''message'')),
                      (''timestamp'', JNum ts)]]\<rparr>)) \<and>
   (text_or_null (js_get (req_body req2) ''sender'') \<and>
    text_or_null (js_get (req_body req2) ''message'') \<longrightarrow>
      post_message (sqlite_engine render ts) sqlite now req2 sdb =
        (res_json (JObj [(''success'', JBool True)]),
         [io_emit ''newMessage''
            (JObj [(''sender'', js_get (req_body req2) ''sender''),
                   (''message'', js_get (req_body req2) ''message''),
                   (''timestamp'', JNum now)])],
         sdb\<lparr>messages := messages sdb @
               [JObj [(''id'', JNum (int (Suc (length (messages sdb))))),
                      (''sender'', js_get (req_body req2) ''sender''),
                      (''message'', js_get (req_body req2) ''message''),
                      (''timestamp'', JNum ts)]]\<rparr>))"
proof -
  have generic: "post_message eng t now req db =
        (res_json (JObj [(''success'', JBool True)]),
         [io_emit ''newMessage''
            (JObj [(''sender'', js_get (req_body req) ''sender''),
                   (''message'', js_get (req_body req) ''message''),
                   (''timestamp'', JNum now)])],
         db')"
    if "\<not> nullish (req_body req)"
      and "runExecute eng t message_sql
        [js_get (req_body req) ''sender'', js_get (req_body req) ''message''] db = (Inr r, db')"
    using that by (simp add: post_message_def Let_def)
  have embedded: "post_message (sqlite_engine render ts) sqlite now req1 sdb =
        (res_json (JObj [(''success'', JBool True)]),
         [io_emit ''newMessage''
            (JObj [(''sender'', js_get (req_body req1) ''sender''),
                   (''message'', js_get (req_body req1) ''message''),
                   (''timestamp'', JNum now)])],
         sdb\<lparr>messages := messages sdb @
               [JObj [(''id'', JNum (int (Suc (length (messages sdb))))),
                      (''sender'', to_text render (js_get (req_body req1) ''sender'')),
                      (''message'', to_text render (js_get (req_body req1) ''message'')),
                      (''timestamp'', JNum ts)]]\<rparr>)"
    if "\<not> nullish (req_body req1)"
    unfolding post_message_sqlite [OF that] by (simp add: message_row_def)
  have strings: "post_message (sqlite_engine render ts) sqlite now req2 sdb =
        (res_json (JObj [(''success'', JBool True)]),
         [io_emit ''newMessage''
            (JObj [(''sender'', js_get (req_body req2) ''sender''),
                   (''message'', js_get (req_body req2) ''message''),
                   (''timestamp'', JNum now)])],
         sdb\<lparr>messages := messages sdb @
               [JObj [(''id'', JNum (int (Suc (length (messages sdb))))),
                      (''sender'', js_get (req_body req2) ''sender''),
                      (''message'', js_get (req_body req2) ''message''),
                      (''timestamp'', JNum ts)]]\<rparr>)"
    if sender: "text_or_null (js_get (req_body req2) ''sender'')"
      and message: "text_or_null (js_get (req_body req2) ''message'')"
  proof -
    have body: "\<not> nullish (req_body req2)"
      using sender js_get_nullish [of "req_body req2" "''sender''"] by auto
    from sender message
    have "to_text render (js_get (req_body req2) ''sender'') = js_get (req_body req2) ''sender''"
      and "to_text render (js_get (req_body req2) ''message'') = js_get (req_body req2) ''message''"
      by (simp_all add: to_text_kept)
    then show ?thesis
      unfolding post_message_sqlite [OF body] by (simp add: message_row_def)
  qed
  from generic embedded strings show ?thesis by blast
qed

theorem post_message_broadcast_witness:
  "post_message (sqlite_engine unused_render 7) sqlite 8 (message_request ''ann'' ''hi'') empty_store =
     (res_json (JObj [(''success'', JBool True)]),
      [io_emit ''newMessage''
         (JObj [(''sender'', JStr ''ann''), (''message'', JStr ''hi''), (''timestamp'', JNum 8)])],
      \<lparr>users = [],
        messages = [JObj [(''id'', JNum 1), (''sender'', JStr ''ann''), (''message'', JStr ''hi''),
                          (''timestamp'', JNum 7)]]\<rparr>) \<and>
   post_message (sqlite_engine unused_render 50) sqlite 51 numeric_sender_request empty_store =
     (res_json (JObj [(''success'', JBool True)]),
      [io_emit ''newMessage''
         (JObj [(''sender'', JNum 7), (''message'', JStr ''hi''), (''timestamp'', JNum 51)])],
      \<lparr>users = [],
        messages = [JObj [(''id'', JNum 1), (''sender'', JStr ''7''), (''message'', JStr ''hi''),
                          (''timestamp'', JNum 50)]]\<rparr>)"
proof -
  let ?req = "message_request ''ann'' ''hi''"
  let ?db' = "\<lparr>users = [],
        messages = [JObj [(''id'', JNum 1), (''sender'', JStr ''ann''), (''message'', JStr ''hi''),
                          (''timestamp'', JNum 7)]]\<rparr>"
  have body: "\<not> nullish (req_body ?req)"
    by (simp add: message_request_def nullish_def)
  have stored: "runExecute (sqlite_engine unused_render 7) sqlite message_sql
      [js_get (req_body ?req) ''sender'', js_get (req_body ?req) ''message''] empty_store =
      (Inr [], ?db')"
    by (simp add: sqlite_message_insert message_request_def empty_store_def message_row_def)
  have sender: "text_or_null (js_get (req_body ?req) ''sender'')"
    and message: "text_or_null (js_get (req_body ?req) ''message'')"
    by (simp_all add: message_request_def)
  from body stored sender message
    post_message_broadcast [where req = ?req and eng = "sqlite_engine unused_render 7"
      and t = sqlite and db = empty_store and r = "[]" and db' = ?db' and now = 8
      and ?req1.0 = ?req and render = unused_render and ts = 7 and sdb = empty_store
      and ?req2.0 = ?req]
  have "post_message (sqlite_engine unused_render 7) sqlite 8 ?req empty_store =
        (res_json (JObj [(''success'', JBool True)]),
         [io_emit ''newMessage''
            (JObj [(''sender'', js_get (req_body ?req) ''sender''),
                   (''message'', js_get (req_body ?req) ''message''),
                   (''timestamp'', JNum 8)])],
         empty_store\<lparr>messages := messages empty_store @
               [JObj [(''id'', JNum (int (Suc (length (messages empty_store))))),
                      (''sender'', js_get (req_body ?req) ''sender''),
                      (''message'', js_get (req_body ?req) ''message''),
                      (''timestamp'', JNum 7)]]\<rparr>)"
    by blast
  then have strings: "post_message (sqlite_engine unused_render 7) sqlite 8 ?req empty_store =
     (res_json (JObj [(''success'', JBool True)]),
      [io_emit ''newMessage''
         (JObj [(''sender'', JStr ''ann''), (''message'', JStr ''hi''), (''timestamp'', JNum 8)])],
      ?db')"
    by (simp add: empty_store_def message_request_def)
  have body7: "\<not> nullish (req_body numeric_sender_request)"
    by (simp add: numeric_sender_request_def nullish_def)
  have seven: "to_text unused_render (JNum 7) = JStr ''7''"
    by code_simp
  from post_message_broadcast [where ?req1.0 = numeric_sender_request and render = unused_render
      and ts = 50 and now = 51 and sdb = empty_store, THEN conjunct2, THEN conjunct1, THEN mp, OF body7]
  have "post_message (sqlite_engine unused_render 50) sqlite 51 numeric_sender_request empty_store =
        (res_json (JObj [(''success'', JBool True)]),
         [io_emit ''newMessage''
            (JObj [(''sender'', js_get (req_body numeric_sender_request) ''sender''),
                   (''message'', js_get (req_body numeric_sender_request) ''message''),
                   (''timestamp'', JNum 51)])],
         empty_store\<lparr>messages := messages empty_store @
               [JObj [(''id'', JNum (int (Suc (length (messages empty_store))))),
                      (''sender'', to_text unused_render (js_get (req_body numeric_sender_request) ''sender'')),
                      (''message'', to_text unused_render (js_get (req_body numeric_sender_request) ''message'')),
                      (''timestamp'', JNum 50)]]\<rparr>)" .
  then have "post_message (sqlite_engine unused_render 50) sqlite 51 numeric_sender_request empty_store =
     (res_json (JObj [(''success'', JBool True)]),
      [io_emit ''newMessage''
         (JObj [(''sender'', JNum 7), (''message'', JStr ''hi''), (''timestamp'', JNum 51)])],
      \<lparr>users = [],
        messages = [JObj [(''id'', JNum 1), (''sender'', JStr ''7''), (''message'', JStr ''hi''),
                          (''timestamp'', JNum 50)]]\<rparr>)"
    using seven by (simp add: empty_store_def numeric_sender_request_def)
  with strings show ?thesis by blast
qed

text \<open>
  C9 as stated equates the event's sender and body with what was persisted. A JSON body can
  carry the number 7 as sender: the event then carries the number 7, and the row holds the
  text \<^verbatim>\<open>'7'\<close>.
\<close>

theorem post_message_broadcast_counterexample:
  "post_message (sqlite_engine unused_render 50) sqlite 51 numeric_sender_request empty_store =
     (res_json (JObj [(''success'', JBool True)]),
      [io_emit ''newMessage''
         (JObj [(''sender'', JNum 7), (''message'', JStr ''hi''), (''timestamp'', JNum 51)])],
      \<lparr>users = [],
        messages = [JObj [(''id'', JNum 1), (''sender'', JStr ''7''), (''message'', JStr ''hi''),
                          (''timestamp'', JNum 50)]]\<rparr>) \<and>
   JNum 7 \<noteq> JStr ''7''"
proof -
  have body: "\<not> nullish (req_body numeric_sender_request)"
    by (simp add: numeric_sender_request_def nullish_def)
  have "to_text unused_render (JNum 7) = JStr ''7''"
    by code_simp
  then show ?thesis
    unfolding post_message_sqlite [OF body]
    by (simp add: numeric_sender_request_def empty_store_def message_row_def)
qed

section \<open>Message history\<close>

lemma timestamp_of_message_row: "timestamp_of (message_row n s m ts) = ts"
  by (simp add: timestamp_of_def message_row_def)

lemma timestamps_posted_rows:
  "map timestamp_of (posted_rows render n posts) = map (\<lambda>(req, ts, now). ts) posts"
  by (induction render n posts rule: posted_rows.induct) (simp_all add: timestamp_of_message_row)

lemma post_messages_sqlite:
  "\<forall>post \<in> set posts. \<not> nullish (req_body (fst post)) \<Longrightarrow>
   post_messages render posts db =
     (replicate (length posts) (res_json (JObj [(''success'', JBool True)])),
      db\<lparr>messages := messages db @ posted_rows render (length (messages db)) posts\<rparr>)"
proof (induction posts arbitrary: db)
  case Nil
  then show ?case by simp
next
  case (Cons post posts)
  obtain req ts now where post: "post = (req, ts, now)" by (cases post)
  from Cons.prems post have body: "\<not> nullish (req_body req)" by simp
  from Cons.prems have rest: "\<forall>post \<in> set posts. \<not> nullish (req_body (fst post))" by simp
  show ?case
    unfolding post by (simp add: post_message_sqlite [OF body] Cons.IH [OF rest])
qed

lemma get_messages_sqlite:
  "get_messages (sqlite_engine render ts) sqlite db =
     (res_json (JArr (sort_key timestamp_of (messages db))), db)"
  by (simp add: get_messages_def sqlite_messages_query)

text \<open>
  C3, as amended. On the embedded store \<^verbatim>\<open>GET /messages\<close> returns all stored messages
  ordered by the store-assigned timestamp ascending, messages with equal timestamps in
  insertion order. After a run of successful posts, when the timestamps the store assigned
  never decrease from one insert to the next, the reply lists all messages in insertion
  order.
\<close>

theorem messages_in_timestamp_order:
  "timestamp_of (JObj [(''id'', i), (''sender'', s), (''message'', m), (''timestamp'', JNum ts)]) = ts \<and>
   fst (get_messages (sqlite_engine render ts') sqlite db) =
     res_json (JArr (sort_key timestamp_of (messages db))) \<and>
   ordered_by_timestamp (sort_key timestamp_of (messages db)) (messages db) \<and>
   filter (\<lambda>row. timestamp_of row = k) (sort_key timestamp_of (messages db)) =
     filter (\<lambda>row. timestamp_of row = k) (messages db) \<and>
   ((\<forall>post \<in> set posts. \<not> nullish (req_body (fst post))) \<and>
    sorted (map timestamp_of (messages db) @ map (\<lambda>(req, ts, now). ts) posts) \<longrightarrow>
      snd (post_messages render posts db) =
        db\<lparr>messages := messages db @ posted_rows render (length (messages db)) posts\<rparr> \<and>
      fst (get_messages (sqlite_engine render ts') sqlite (snd (post_messages render posts db))) =
        res_json (JArr (messages db @ posted_rows render (length (messages db)) posts)))"
proof -
  let ?tbl = "messages db @ posted_rows render (length (messages db)) posts"
  have ordered: "ordered_by_timestamp (sort_key timestamp_of (messages db)) (messages db)"
    by (simp add: ordered_by_timestamp_def)
  have stable: "filter (\<lambda>row. timestamp_of row = k) (sort_key timestamp_of (messages db)) =
     filter (\<lambda>row. timestamp_of row = k) (messages db)"
    by (rule sort_key_stable)
  have insertion:
    "snd (post_messages render posts db) = db\<lparr>messages := ?tbl\<rparr> \<and>
     fst (get_messages (sqlite_engine render ts') sqlite (snd (post_messages render posts db))) =
        res_json (JArr ?tbl)"
    if bodies: "\<forall>post \<in> set posts. \<not> nullish (req_body (fst post))"
      and rising: "sorted (map timestamp_of (messages db) @ map (\<lambda>(req, ts, now). ts) posts)"
  proof -
    have after: "snd (post_messages render posts db) = db\<lparr>messages := ?tbl\<rparr>"
      by (simp add: post_messages_sqlite [OF bodies])
    have "sorted (map timestamp_of ?tbl)"
      using rising by (simp add: timestamps_posted_rows)
    then have "sort_key timestamp_of ?tbl = ?tbl" by (rule sort_key_id_if_sorted)
    then have "fst (get_messages (sqlite_engine render ts') sqlite (db\<lparr>messages := ?tbl\<rparr>)) =
        res_json (JArr ?tbl)"
      by (simp add: get_messages_sqlite)
    with after show ?thesis by simp
  qed
  have reply: "fst (get_messages (sqlite_engine render ts') sqlite db) =
     res_json (JArr (sort_key timestamp_of (messages db)))"
    by (simp add: get_messages_sqlite)
  have key: "timestamp_of (JObj [(''id'', i), (''sender'', s), (''message'', m), (''timestamp'', JNum ts)]) = ts"
    by (simp add: timestamp_of_def)
  from key reply ordered stable insertion show ?thesis by blast
qed

theorem messages_in_timestamp_order_witness:
  "fst (get_messages (sqlite_engine unused_render 40) sqlite
     \<lparr>users = [],
      messages =
        [JObj [(''id'', JNum 1), (''sender'', JStr ''ann''), (''message'', JStr ''M1''), (''timestamp'', JNum 20)],
         JObj [(''id'', JNum 2), (''sender'', JStr ''bob''), (''message'', JStr ''M2''), (''timestamp'', JNum 10)],
         JObj [(''id'', JNum 3), (''sender'', JStr ''ann''), (''message'', JStr ''M3''), (''timestamp'', JNum 20)]]\<rparr>) =
     res_json (JArr
        [JObj [(''id'', JNum 2), (''sender'', JStr ''bob''), (''message'', JStr ''M2''), (''timestamp'', JNum 10)],
         JObj [(''id'', JNum 1), (''sender'', JStr ''ann''), (''message'', JStr ''M1''), (''timestamp'', JNum 20)],
         JObj [(''id'', JNum 3), (''sender'', JStr ''ann''), (''message'', JStr ''M3''), (''timestamp'', JNum 20)]]) \<and>
   fst (get_messages (sqlite_engine unused_render 40) sqlite
     (snd (post_messages unused_render
        [(message_request ''ann'' ''M1'', 10, 10),
         (message_request ''bob'' ''M2'', 20, 20),
         (message_request ''ann'' ''M3'', 20, 20)] empty_store))) =
     res_json (JArr
        [JObj [(''id'', JNum 1), (''sender'', JStr ''ann''), (''message'', JStr ''M1''), (''timestamp'', JNum 10)],
         JObj [(''id'', JNum 2), (''sender'', JStr ''bob''), (''message'', JStr ''M2''), (''timestamp'', JNum 20)],
         JObj [(''id'', JNum 3), (''sender'', JStr ''ann''), (''message'', JStr ''M3''), (''timestamp'', JNum 20)]])"
proof -
  let ?posts = "[(message_request ''ann'' ''M1'', 10::int, 10::int),
         (message_request ''bob'' ''M2'', 20, 20),
         (message_request ''ann'' ''M3'', 20, 20)]"
  let ?held = "\<lparr>users = [],
      messages =
        [JObj [(''id'', JNum 1), (''sender'', JStr ''ann''), (''message'', JStr ''M1''), (''timestamp'', JNum 20)],
         JObj [(''id'', JNum 2), (''sender'', JStr ''bob''), (''message'', JStr ''M2''), (''timestamp'', JNum 10)],
         JObj [(''id'', JNum 3), (''sender'', JStr ''ann''), (''message'', JStr ''M3''), (''timestamp'', JNum 20)]]\<rparr>"
  have bodies: "\<forall>post \<in> set ?posts. \<not> nullish (req_body (fst post))"
    by (simp add: message_request_def nullish_def)
  have rising: "sorted (map timestamp_of (messages empty_store) @ map (\<lambda>(req, ts, now). ts) ?posts)"
    by (simp add: empty_store_def)
  have rows: "messages empty_store @ posted_rows unused_render (length (messages empty_store)) ?posts =
        [JObj [(''id'', JNum 1), (''sender'', JStr ''ann''), (''message'', JStr ''M1''), (''timestamp'', JNum 10)],
         JObj [(''id'', JNum 2), (''sender'', JStr ''bob''), (''message'', JStr ''M2''), (''timestamp'', JNum 20)],
         JObj [(''id'', JNum 3), (''sender'', JStr ''ann''), (''message'', JStr ''M3''), (''timestamp'', JNum 20)]]"
    by (simp add: empty_store_def message_request_def message_row_def)
  have sorted_held: "sort_key timestamp_of (messages ?held) =
        [JObj [(''id'', JNum 2), (''sender'', JStr ''bob''), (''message'', JStr ''M2''), (''timestamp'', JNum 10)],
         JObj [(''id'', JNum 1), (''sender'', JStr ''ann''), (''message'', JStr ''M1''), (''timestamp'', JNum 20)],
         JObj [(''id'', JNum 3), (''sender'', JStr ''ann''), (''message'', JStr ''M3''), (''timestamp'', JNum 20)]]"
    by (simp add: timestamp_of_def)
  from messages_in_timestamp_order [where db = ?held and render = unused_render and ts' = 40]
  have held: "fst (get_messages (sqlite_engine unused_render 40) sqlite ?held) =
      res_json (JArr (sort_key timestamp_of (messages ?held)))"
    by blast
  from bodies rising
    messages_in_timestamp_order [where posts = ?posts and db = empty_store
      and render = unused_render and ts' = 40]
  have "fst (get_messages (sqlite_engine unused_render 40) sqlite
        (snd (post_messages unused_render ?posts empty_store))) =
       res_json (JArr (messages empty_store @
         posted_rows unused_render (length (messages empty_store)) ?posts))"
    by blast
  with held show ?thesis unfolding rows sorted_held by blast
qed

text \<open>
  C3 as stated promises insertion order whatever the timing of the inserts. The handler
  orders by timestamp only: with the store's clock set back between the inserts of M1 and
  M2, the table holds M1, M2, M3 in insertion order and the reply lists M2, M1, M3.
\<close>

theorem messages_in_timestamp_order_counterexample:
  "messages (snd (post_messages unused_render jittered_posts empty_store)) =
     [message_row 1 (JStr ''ann'') (JStr ''M1'') 20,
      message_row 2 (JStr ''bob'') (JStr ''M2'') 10,
      message_row 3 (JStr ''ann'') (JStr ''M3'') 30] \<and>
   fst (get_messages (sqlite_engine unused_render 40) sqlite
      (snd (post_messages unused_render jittered_posts empty_store))) =
     res_json (JArr
       [message_row 2 (JStr ''bob'') (JStr ''M2'') 10,
        message_row 1 (JStr ''ann'') (JStr ''M1'') 20,
        message_row 3 (JStr ''ann'') (JStr ''M3'') 30]) \<and>
   fst (get_messages (sqlite_engine unused_render 40) sqlite
      (snd (post_messages unused_render jittered_posts empty_store))) \<noteq>
     res_json (JArr (messages (snd (post_messages unused_render jittered_posts empty_store))))"
proof -
  have bodies: "\<forall>post \<in> set jittered_posts. \<not> nullish (req_body (fst post))"
    by (simp add: jittered_posts_def message_request_def nullish_def)
  have tbl: "messages (snd (post_messages unused_render jittered_posts empty_store)) =
     [message_row 1 (JStr ''ann'') (JStr ''M1'') 20,
      message_row 2 (JStr ''bob'') (JStr ''M2'') 10,
      message_row 3 (JStr ''ann'') (JStr ''M3'') 30]"
    unfolding post_messages_sqlite [OF bodies]
    by (simp add: jittered_posts_def empty_store_def message_request_def message_row_def)
  have reply: "fst (get_messages (sqlite_engine unused_render 40) sqlite
      (snd (post_messages unused_render jittered_posts empty_store))) =
     res_json (JArr
       [message_row 2 (JStr ''bob'') (JStr ''M2'') 10,
        message_row 1 (JStr ''ann'') (JStr ''M1'') 20,
        message_row 3 (JStr ''ann'') (JStr ''M3'') 30])"
    by (simp add: get_messages_sqlite tbl timestamp_of_message_row)
  have "fst (get_messages (sqlite_engine unused_render 40) sqlite
      (snd (post_messages unused_render jittered_posts empty_store))) \<noteq>
     res_json (JArr (messages (snd (post_messages unused_render jittered_posts empty_store))))"
    unfolding reply tbl by (simp add: res_json_def message_row_def)
  with tbl reply show ?thesis by blast
qed

end
